theory Spec2Isabelle
  imports Complex_Main
begin

section \<open>Values: exceptions and array elements\<close>

text \<open>
  A Python exception is recorded by the name of its class; a computation that may raise
  returns \<open>exn + 'a\<close>, with \<open>Inl\<close> for the exception.
\<close>

datatype exn = Exn string

text \<open>
  An element of a calibration image is a floating-point number. The arithmetic is the
  exact one of the reals, extended by the two infinities and by NaN, because the
  normalisation of the fused image uses \<open>np.nansum\<close> and so tells NaN from every other
  value. Rounding and the sign of zero are left out: zero is the positive zero.
\<close>

datatype fval = Fin real | PInf | NInf | NaN

definition inf_of :: "real \<Rightarrow> fval" where
  "inf_of s = (if 0 < s then PInf else if s < 0 then NInf else NaN)"

fun fadd :: "fval \<Rightarrow> fval \<Rightarrow> fval" where
  "fadd (Fin a) (Fin b) = Fin (a + b)"
| "fadd NaN _ = NaN"
| "fadd _ NaN = NaN"
| "fadd PInf NInf = NaN"
| "fadd NInf PInf = NaN"
| "fadd PInf _ = PInf"
| "fadd _ PInf = PInf"
| "fadd NInf _ = NInf"
| "fadd _ NInf = NInf"

fun fmul :: "fval \<Rightarrow> fval \<Rightarrow> fval" where
  "fmul (Fin a) (Fin b) = Fin (a * b)"
| "fmul (Fin a) PInf = inf_of a"
| "fmul (Fin a) NInf = inf_of (- a)"
| "fmul PInf (Fin b) = inf_of b"
| "fmul NInf (Fin b) = inf_of (- b)"
| "fmul PInf PInf = PInf"
| "fmul NInf NInf = PInf"
| "fmul PInf NInf = NInf"
| "fmul NInf PInf = NInf"
| "fmul _ _ = NaN"

fun fdiv :: "fval \<Rightarrow> fval \<Rightarrow> fval" where
  "fdiv (Fin a) (Fin b) = (if b = 0 then inf_of a else Fin (a / b))"
| "fdiv (Fin a) PInf = Fin 0"
| "fdiv (Fin a) NInf = Fin 0"
| "fdiv PInf (Fin b) = (if b < 0 then NInf else PInf)"
| "fdiv NInf (Fin b) = (if b < 0 then PInf else NInf)"
| "fdiv _ _ = NaN"

fun fneg :: "fval \<Rightarrow> fval" where
  "fneg (Fin a) = Fin (- a)"
| "fneg PInf = NInf"
| "fneg NInf = PInf"
| "fneg NaN = NaN"

definition fsub :: "fval \<Rightarrow> fval \<Rightarrow> fval" where
  "fsub a b = fadd a (fneg b)"

text \<open>
  \<open>math.cos\<close> and \<open>math.sin\<close> of a float: they raise \<open>ValueError\<close> at the two infinities
  and return NaN at NaN.
\<close>

fun math_cos :: "fval \<Rightarrow> exn + fval" where
  "math_cos (Fin a) = Inr (Fin (cos a))"
| "math_cos NaN = Inr NaN"
| "math_cos _ = Inl (Exn ''ValueError'')"

fun math_sin :: "fval \<Rightarrow> exn + fval" where
  "math_sin (Fin a) = Inr (Fin (sin a))"
| "math_sin NaN = Inr NaN"
| "math_sin _ = Inl (Exn ''ValueError'')"

type_synonym grid = "fval list list"


definition np_shape :: "grid \<Rightarrow> nat \<times> nat" where
  "np_shape g = (length g, (case g of [] \<Rightarrow> 0 | r # _ \<Rightarrow> length r))"

definition zeros :: "nat \<times> nat \<Rightarrow> grid" where
  "zeros sh = replicate (fst sh) (replicate (snd sh) (Fin 0))"

definition grid_add :: "grid \<Rightarrow> grid \<Rightarrow> grid" where
  "grid_add g h = map2 (map2 fadd) g h"

definition grid_div :: "grid \<Rightarrow> fval \<Rightarrow> grid" where
  "grid_div g d = map (map (\<lambda>v. fdiv v d)) g"

definition grid_scale :: "fval \<Rightarrow> grid \<Rightarrow> grid" where
  "grid_scale k g = map (map (fmul k)) g"

fun fsum :: "fval list \<Rightarrow> fval" where
  "fsum [] = Fin 0"
| "fsum (v # vs) = fadd v (fsum vs)"

definition np_sum :: "grid \<Rightarrow> fval" where
  "np_sum g = fsum (concat g)"

definition nansum :: "grid \<Rightarrow> fval" where
  "nansum g = fsum (map (\<lambda>v. if v = NaN then Fin 0 else v) (concat g))"

text \<open>
  \<open>np.arange(start, stop)\<close> with the step 1, over the reals: the values \<open>start + i\<close> for
  \<open>0 \<le> i < \<lceil>stop - start\<rceil>\<close>. It is what NumPy computes for \<open>np.arange(0.5, n + 0.5)\<close>,
  where every intermediate value is a double; it stands for the two calls of that form,
  which build \<open>PRFcol\<close> and \<open>PRFrow\<close>.
\<close>

definition arange :: "real \<Rightarrow> real \<Rightarrow> real list" where
  "arange start stop = map (\<lambda>i. start + real i) [0..<nat \<lceil>stop - start\<rceil>]"

text \<open>
  The footprint axes are \<open>np.arange\<close> of sums with \<open>column\<close> and \<open>row\<close>, which may be any
  number, so the rounding of the doubles counts there. \<open>binary64 x\<close> is the double nearest
  to the real \<open>x\<close>, a tie going to the even significand: \<open>x\<close> is in the binade
  \<open>2 ^ e \<le> \<bar>x\<bar> < 2 ^ (e + 1)\<close> with \<open>e = \<lfloor>log 2 \<bar>x\<bar>\<rfloor>\<close>, where the doubles are the multiples of
  \<open>2 ^ (e - 52)\<close>. The range of the exponent is not bounded: overflow and subnormal
  numbers are left out.
\<close>

definition round_half_even :: "real \<Rightarrow> int" where
  "round_half_even y =
     (let f = \<lfloor>y\<rfloor>; r = y - of_int f
      in if r < 1 / 2 then f else if 1 / 2 < r then f + 1 else if even f then f else f + 1)"

definition binade :: "real \<Rightarrow> int" where
  "binade x = \<lfloor>log 2 \<bar>x\<bar>\<rfloor>"

definition binary64 :: "real \<Rightarrow> real" where
  "binary64 x =
     (if x = 0 then 0
      else of_int (round_half_even (x / 2 powr of_int (binade x - 52))) *
           2 powr of_int (binade x - 52))"

text \<open>
  \<open>np.arange(start, stop)\<close> of two doubles, with the step 1, as NumPy computes it: the
  length is the ceiling of the double \<open>(stop - start) / 1\<close>; the first element is \<open>start\<close>,
  the second the double \<open>next = start + 1\<close>, and the element of index \<open>i \<ge> 2\<close> is the double
  \<open>start + i * delta\<close> with \<open>delta = next - start\<close>, every operation rounded.
\<close>

definition np_arange :: "real \<Rightarrow> real \<Rightarrow> real list" where
  "np_arange start stop =
     (let n = nat \<lceil>binary64 (binary64 (stop - start) / 1)\<rceil>;
          next = binary64 (start + 1);
          delta = binary64 (next - start)
      in map (\<lambda>i. if i = 0 then start else if i = 1 then next
                    else binary64 (start + binary64 (real i * delta))) [0..<n])"

text \<open>
  \<open>np.arange(x + .5, x + n + .5)\<close>, for a number \<open>x\<close> (an integer or a double) and a
  dimension \<open>n\<close>, as lines 219 and 220 have it for \<open>column\<close> and \<open>coldim\<close>, \<open>row\<close> and
  \<open>rowdim\<close>: \<open>x + .5\<close> is the double sum of the double of \<open>x\<close> and one half; \<open>x + n\<close> is
  exact when \<open>x\<close> is an integer and rounded when it is a double, and in both cases
  \<open>x + n + .5\<close> is the double sum of the double of \<open>x + n\<close> and one half.
\<close>

definition footprint_axis :: "real \<Rightarrow> nat \<Rightarrow> real list" where
  "footprint_axis x n =
     np_arange (binary64 (binary64 x + 1 / 2)) (binary64 (binary64 (x + real n) + 1 / 2))"

section \<open>Strings: \<open>str\<close> of an integer and \<open>os.path.join\<close>\<close>

fun digits :: "nat \<Rightarrow> string" where
  "digits n = (if n < 10 then [''0123456789'' ! n]
               else digits (n div 10) @ [''0123456789'' ! (n mod 10)])"

declare digits.simps [simp del]

definition str_int :: "int \<Rightarrow> string" where
  "str_int i = (if i < 0 then ''-'' @ digits (nat (- i)) else digits (nat i))"

text \<open>
  \<open>os.path.join(a, b)\<close> on a POSIX system: an absolute \<open>b\<close> replaces \<open>a\<close>; otherwise
  the two are joined by one separator, which an empty \<open>a\<close> or an \<open>a\<close> ending in the
  separator does not need.
\<close>

definition path_join :: "string \<Rightarrow> string \<Rightarrow> string" where
  "path_join a b =
     (if b \<noteq> [] \<and> hd b = CHR ''/'' then b
      else if a = [] \<or> last a = CHR ''/'' then a @ b
      else a @ ''/'' @ b)"

section \<open>The calibration file and the environment of the constructor\<close>

text \<open>
  An extension (HDU) of a calibration file holds an image and a header. The functions of
  other modules that the constructor calls are the fields of the environment:
  \<open>channel_to_module_output\<close> of \<open>pyke.utils\<close>, \<open>glob.glob\<close> and \<open>pyfits.open\<close> (the
  file system), and \<open>scipy.interpolate.RectBivariateSpline\<close>, whose result is called with
  two coordinate vectors.
\<close>

record hdu =
  data :: grid
  header :: "string \<rightharpoonup> real"

type_synonym interpolant = "real list \<Rightarrow> real list \<Rightarrow> exn + grid"

record env =
  channel_to_module_output :: "int \<Rightarrow> exn + int \<times> int"
  glob :: "string \<Rightarrow> string list"
  fits_open :: "string \<Rightarrow> exn + hdu list"
  RectBivariateSpline :: "real list \<Rightarrow> real list \<Rightarrow> grid \<Rightarrow> exn + interpolant"

text \<open>
  What \<open>_read_prf_calibration_file\<close> returns, and what the five parallel arrays
  \<open>prfn\<close>, \<open>crval1p\<close>, \<open>crval2p\<close>, \<open>cdelt1p\<close>, \<open>cdelt2p\<close> hold at one index.
\<close>

record sample =
  prfn :: grid
  crval1p :: real
  crval2p :: real
  cdelt1p :: real
  cdelt2p :: real

definition header_get :: "hdu \<Rightarrow> string \<Rightarrow> exn + real" where
  "header_get h k = (case header h k of None \<Rightarrow> Inl (Exn ''KeyError'') | Some v \<Rightarrow> Inr v)"

definition read_prf_calibration_file :: "env \<Rightarrow> string \<Rightarrow> nat \<Rightarrow> exn + sample" where
  "read_prf_calibration_file E path ext =
     (case fits_open E path of
        Inl e \<Rightarrow> Inl e
      | Inr prf_cal_file \<Rightarrow>
          if length prf_cal_file \<le> ext then Inl (Exn ''IndexError'')
          else
            let h = prf_cal_file ! ext in
            (case header_get h ''CRVAL1P'' of Inl e \<Rightarrow> Inl e | Inr c1 \<Rightarrow>
             case header_get h ''CRVAL2P'' of Inl e \<Rightarrow> Inl e | Inr c2 \<Rightarrow>
             case header_get h ''CDELT1P'' of Inl e \<Rightarrow> Inl e | Inr d1 \<Rightarrow>
             case header_get h ''CDELT2P'' of Inl e \<Rightarrow> Inl e | Inr d2 \<Rightarrow>
               Inr \<lparr>prfn = data h, crval1p = c1, crval2p = c2, cdelt1p = d1, cdelt2p = d2\<rparr>))"

text \<open>The loop \<open>for i in range(n_hdu)\<close> that reads the extensions \<open>i + 1\<close>.\<close>

fun read_prf_images :: "env \<Rightarrow> string \<Rightarrow> nat list \<Rightarrow> exn + sample list" where
  "read_prf_images E path [] = Inr []"
| "read_prf_images E path (i # is) =
     (case read_prf_calibration_file E path (i + 1) of
        Inl e \<Rightarrow> Inl e
      | Inr s \<Rightarrow>
          (case read_prf_images E path is of
             Inl e \<Rightarrow> Inl e
           | Inr ss \<Rightarrow> Inr (s # ss)))"

section \<open>Fusion and normalisation\<close>

definition n_hdu :: nat where
  "n_hdu = 5"

definition min_prf_weight :: real where
  "min_prf_weight = 1 / 1000000"

definition ref_column :: "nat \<times> nat \<Rightarrow> real \<Rightarrow> real" where
  "ref_column shape column = column + (real (snd shape) - 1) / 2"

definition ref_row :: "nat \<times> nat \<Rightarrow> real \<Rightarrow> real" where
  "ref_row shape row = row + (real (fst shape) - 1) / 2"

definition prfWeight :: "real \<Rightarrow> real \<Rightarrow> sample \<Rightarrow> real" where
  "prfWeight rc rr s =
     (let w = sqrt ((rc - crval1p s) ^ 2 + (rr - crval2p s) ^ 2)
      in if w < min_prf_weight then min_prf_weight else w)"

text \<open>The loop that adds \<open>prfn[i] / prfWeight[i]\<close> to \<open>prf\<close>, sample after sample.\<close>

fun fuse :: "real \<Rightarrow> real \<Rightarrow> sample list \<Rightarrow> grid \<Rightarrow> grid" where
  "fuse rc rr [] prf = prf"
| "fuse rc rr (s # ss) prf =
     fuse rc rr ss (grid_add prf (grid_div (prfn s) (Fin (prfWeight rc rr s))))"

definition normalise :: "grid \<Rightarrow> real \<Rightarrow> real \<Rightarrow> grid" where
  "normalise prf c1 c2 = grid_div prf (fmul (fmul (nansum prf) (Fin c1)) (Fin c2))"

text \<open>
  Lines 206 to 216 of \<open>_prepare_prf\<close>: the sum \<open>prf\<close> of the weighted samples, from the
  footprint and the samples read (\<open>s0\<close> is the first of \<open>ss\<close>); and line 217, its
  normalisation.
\<close>

definition accumulated_grid :: "nat \<times> nat \<Rightarrow> real \<Rightarrow> real \<Rightarrow> sample \<Rightarrow> sample list \<Rightarrow> grid" where
  "accumulated_grid shape column row s0 ss =
     fuse (ref_column shape column) (ref_row shape row) ss (zeros (np_shape (prfn s0)))"

definition fused_grid :: "nat \<times> nat \<Rightarrow> real \<Rightarrow> real \<Rightarrow> sample \<Rightarrow> sample list \<Rightarrow> grid" where
  "fused_grid shape column row s0 ss =
     normalise (accumulated_grid shape column row s0 ss) (cdelt1p s0) (cdelt2p s0)"

definition PRFaxis :: "nat \<Rightarrow> real \<Rightarrow> real list" where
  "PRFaxis n cdelt =
     (let a = arange (1 / 2) (real n + 1 / 2)
      in map (\<lambda>x. (x - real (length a) / 2) * cdelt) a)"

definition prf_file_path :: "string \<Rightarrow> int \<Rightarrow> int \<Rightarrow> string" where
  "prf_file_path dir modul output =
     path_join dir ((if modul < 10 then ''kplr0'' else ''kplr'')
                    @ str_int modul @ ''.'' @ str_int output @ ''*_prf.fits'')"

text \<open>
  \<open>_prepare_prf\<close>. \<open>np.array(prfn)\<close> of images that do not all have one shape is a
  \<open>ValueError\<close> (NumPy 1.24 and later; before, the in-place sum of line 216 fails on
  shapes that do not broadcast).
\<close>

definition prepare_prf ::
  "env \<Rightarrow> string \<Rightarrow> int \<Rightarrow> nat \<times> nat \<Rightarrow> real \<Rightarrow> real
     \<Rightarrow> exn + real list \<times> real list \<times> interpolant" where
  "prepare_prf E dir chan shape column row =
     (case channel_to_module_output E chan of
        Inl e \<Rightarrow> Inl e
      | Inr (modul, output) \<Rightarrow>
     (case glob E (prf_file_path dir modul output) of
        [] \<Rightarrow> Inl (Exn ''IndexError'')
      | prffile # _ \<Rightarrow>
     (case read_prf_images E prffile [0..<n_hdu] of
        Inl e \<Rightarrow> Inl e
      | Inr ss \<Rightarrow>
     (case ss of
        [] \<Rightarrow> Inl (Exn ''IndexError'')
      | s0 # _ \<Rightarrow>
          if \<not> list_all (\<lambda>s. np_shape (prfn s) = np_shape (prfn s0)) ss
          then Inl (Exn ''ValueError'')
          else
            let PRFcol = PRFaxis (snd (np_shape (prfn s0))) (cdelt1p s0);
                PRFrow = PRFaxis (fst (np_shape (prfn s0))) (cdelt2p s0);
                rowdim = fst shape;
                coldim = snd shape;
                prf = fused_grid shape column row s0 ss;
                col_coord = footprint_axis column coldim;
                row_coord = footprint_axis row rowdim
            in (case RectBivariateSpline E PRFcol PRFrow prf of
                  Inl e \<Rightarrow> Inl e
                | Inr interpolate \<Rightarrow> Inr (col_coord, row_coord, interpolate))))))"

section \<open>The model \<open>KeplerPRF\<close>\<close>

record KeplerPRF =
  prf_files_dir :: string
  channel :: int
  shape :: "nat \<times> nat"
  column :: real
  row :: real
  col_coord :: "real list"
  row_coord :: "real list"
  interpolate :: interpolant
  prf_model :: "grid option"

text \<open>\<open>KeplerPRF.__init__\<close>; the attribute \<open>prf_model\<close> does not exist before the first evaluation.\<close>

definition KeplerPRF_init ::
  "env \<Rightarrow> int \<Rightarrow> nat \<times> nat \<Rightarrow> real \<Rightarrow> real \<Rightarrow> string \<Rightarrow> exn + KeplerPRF" where
  "KeplerPRF_init E chan sh col rw dir =
     (case prepare_prf E dir chan sh col rw of
        Inl e \<Rightarrow> Inl e
      | Inr (cc, rc, f) \<Rightarrow>
          Inr \<lparr>prf_files_dir = dir, channel = chan, shape = sh, column = col, row = rw,
               col_coord = cc, row_coord = rc, interpolate = f, prf_model = None\<rparr>)"

text \<open>
  \<open>prf_to_detector\<close> returns its result and the model after the call. The rotation is a
  float: \<open>math.cos\<close> raises \<open>ValueError\<close> when it is infinite, before anything else is
  computed. \<open>delta_row[0]\<close> and \<open>delta_col[0]\<close> raise \<open>IndexError\<close> on an empty axis;
  \<open>rot_col\<close> and \<open>rot_row\<close> are computed and not used.
\<close>

definition prf_to_detector ::
  "KeplerPRF \<Rightarrow> real \<Rightarrow> real \<Rightarrow> real \<Rightarrow> real \<Rightarrow> real \<Rightarrow> fval \<Rightarrow> (exn + grid) \<times> KeplerPRF" where
  "prf_to_detector self flux centroid_col centroid_row stretch_col stretch_row rotation_radians =
     (case math_cos rotation_radians of
        Inl e \<Rightarrow> (Inl e, self)
      | Inr cos_rot \<Rightarrow>
     (case math_sin rotation_radians of
        Inl e \<Rightarrow> (Inl e, self)
      | Inr sin_rot \<Rightarrow>
      let delta_col = map (\<lambda>c. c - centroid_col) (col_coord self);
          delta_row = map (\<lambda>r. r - centroid_row) (row_coord self)
      in (case delta_row of
            [] \<Rightarrow> (Inl (Exn ''IndexError''), self)
          | delta_row0 # _ \<Rightarrow>
              let rot_col = map (\<lambda>d. fsub (fmul (Fin d) cos_rot) (fmul (Fin delta_row0) sin_rot))
                              delta_col
              in (case delta_col of
                    [] \<Rightarrow> (Inl (Exn ''IndexError''), self)
                  | delta_col0 # _ \<Rightarrow>
                      let rot_row = map (\<lambda>d. fadd (fmul (Fin delta_col0) sin_rot) (fmul (Fin d) cos_rot))
                                      delta_row
                      in (case interpolate self (map (\<lambda>d. d * stretch_row) delta_row)
                                                (map (\<lambda>d. d * stretch_col) delta_col) of
                            Inl e \<Rightarrow> (Inl e, self)
                          | Inr g \<Rightarrow>
                              let m = grid_scale (Fin flux) g
                              in (Inr m, self\<lparr>prf_model := Some m\<rparr>))))))"

definition evaluate ::
  "KeplerPRF \<Rightarrow> real \<Rightarrow> real \<Rightarrow> real \<Rightarrow> real \<Rightarrow> real \<Rightarrow> fval \<Rightarrow> (exn + grid) \<times> KeplerPRF" where
  "evaluate self flux centroid_col centroid_row stretch_col stretch_row rotation_radians =
     prf_to_detector self flux centroid_col centroid_row stretch_col stretch_row rotation_radians"


section \<open>The fitting driver \<open>KeplerPRFPhotometry\<close>\<close>

text \<open>
  The target pixel file gives \<open>time\<close> and \<open>flux\<close>. The calls into other objects are the
  fields of the environment: \<open>self.loss_function(tpf.flux[t], self.prf_model)\<close> builds
  the likelihood \<open>logL\<close>; \<open>logL.fit(*initial_guesses).x\<close> returns the fitted vector
  (and the likelihood after the fit); \<open>self.prf_model(*opt_result)\<close> builds the model
  image; the subtraction is NumPy's; \<open>logL.uncertainties()\<close>. Each may raise.
\<close>

record tpf =
  time :: "real list"
  flux :: "grid list"






section \<open>A calibration file for examples\<close>

text \<open>
  Channel 42 is output 2 of module 13. The file has a primary extension and five image
  extensions of two rows and two columns, with the pixel scale 1/50 of the Kepler
  calibration files. The interpolant of the example checks the shapes as SciPy does and
  returns a constant image of the shape asked for.
\<close>

definition example_hdu :: "real \<Rightarrow> real \<Rightarrow> hdu" where
  "example_hdu c1 c2 =
     \<lparr>data = [[Fin 1, Fin 2], [Fin 3, Fin 4]],
      header = [''CRVAL1P'' \<mapsto> c1, ''CRVAL2P'' \<mapsto> c2, ''CDELT1P'' \<mapsto> 1 / 50, ''CDELT2P'' \<mapsto> 1 / 50]\<rparr>"

definition example_file :: "hdu list" where
  "example_file =
     [\<lparr>data = [], header = Map.empty\<rparr>,
      example_hdu 12 20, example_hdu 12 1044, example_hdu 1111 1044,
      example_hdu 1111 20, example_hdu 549 511]"

definition example_interpolant :: interpolant where
  "example_interpolant xs ys = Inr (replicate (length xs) (replicate (length ys) (Fin 1)))"

definition example_spline :: "real list \<Rightarrow> real list \<Rightarrow> grid \<Rightarrow> exn + interpolant" where
  "example_spline x y z =
     (if length x \<noteq> fst (np_shape z) \<or> length y \<noteq> snd (np_shape z)
      then Inl (Exn ''ValueError'')
      else Inr example_interpolant)"

definition example_env :: "hdu list \<Rightarrow> env" where
  "example_env file =
     \<lparr>channel_to_module_output =
        (\<lambda>c. if c = 42 then Inr (13, 2) else Inl (Exn ''ValueError'')),
      glob = (\<lambda>p. if p = ''/prf/kplr13.2*_prf.fits'' then [''/prf/kplr13.2_2011265_prf.fits'']
                   else []),
      fits_open = (\<lambda>p. if p = ''/prf/kplr13.2_2011265_prf.fits'' then Inr file
                       else Inl (Exn ''FileNotFoundError'')),
      RectBivariateSpline = example_spline\<rparr>"

definition example_samples :: "sample list" where
  "example_samples =
     [\<lparr>prfn = [[Fin 1, Fin 2], [Fin 3, Fin 4]], crval1p = 12, crval2p = 20, cdelt1p = 1 / 50, cdelt2p = 1 / 50\<rparr>,
      \<lparr>prfn = [[Fin 1, Fin 2], [Fin 3, Fin 4]], crval1p = 12, crval2p = 1044, cdelt1p = 1 / 50, cdelt2p = 1 / 50\<rparr>,
      \<lparr>prfn = [[Fin 1, Fin 2], [Fin 3, Fin 4]], crval1p = 1111, crval2p = 1044, cdelt1p = 1 / 50, cdelt2p = 1 / 50\<rparr>,
      \<lparr>prfn = [[Fin 1, Fin 2], [Fin 3, Fin 4]], crval1p = 1111, crval2p = 20, cdelt1p = 1 / 50, cdelt2p = 1 / 50\<rparr>,
      \<lparr>prfn = [[Fin 1, Fin 2], [Fin 3, Fin 4]], crval1p = 549, crval2p = 511, cdelt1p = 1 / 50, cdelt2p = 1 / 50\<rparr>]"



definition example_model :: "nat \<times> nat \<Rightarrow> real \<Rightarrow> real \<Rightarrow> KeplerPRF" where
  "example_model sh col rw =
     \<lparr>prf_files_dir = ''/prf'', channel = 42, shape = sh, column = col, row = rw,
      col_coord = footprint_axis col (snd sh),
      row_coord = footprint_axis rw (fst sh),
      interpolate = example_interpolant, prf_model = None\<rparr>"

text \<open>The double nearest to 0.7, the value of the Python literal \<open>0.7\<close>.\<close>

definition example_column :: real where
  "example_column = 3152519739159347 / 4503599627370496"

section \<open>Predicates on images\<close>

definition finite_or_nan :: "fval \<Rightarrow> bool" where
  "finite_or_nan v = (v \<noteq> PInf \<and> v \<noteq> NInf)"

definition is_finite :: "fval \<Rightarrow> bool" where
  "is_finite v = (case v of Fin a \<Rightarrow> True | _ \<Rightarrow> False)"

definition all_cells :: "(fval \<Rightarrow> bool) \<Rightarrow> grid \<Rightarrow> bool" where
  "all_cells P g = list_all (list_all P) g"

text \<open>An image has the shape \<open>(r, c)\<close>: \<open>r\<close> rows of \<open>c\<close> elements each.\<close>

definition has_shape :: "grid \<Rightarrow> nat \<times> nat \<Rightarrow> bool" where
  "has_shape g sh = (length g = fst sh \<and> list_all (\<lambda>r. length r = snd sh) g)"

section \<open>Predicates on calibration files, and further examples\<close>

definition required_keys :: "string list" where
  "required_keys = [''CRVAL1P'', ''CRVAL2P'', ''CDELT1P'', ''CDELT2P'']"

definition complete_header :: "hdu \<Rightarrow> bool" where
  "complete_header h = list_all (\<lambda>k. header h k \<noteq> None) required_keys"

text \<open>The directory of the example without any calibration file.\<close>

definition example_env_no_file :: env where
  "example_env_no_file = (example_env example_file)\<lparr>glob := (\<lambda>p. [])\<rparr>"

text \<open>The example file cut after its third image extension.\<close>

definition example_file_short :: "hdu list" where
  "example_file_short = take 4 example_file"

text \<open>The example file with \<open>CDELT2P\<close> missing from the header of its second image extension.\<close>

definition example_file_no_key :: "hdu list" where
  "example_file_no_key =
     example_file[2 := \<lparr>data = [[Fin 1, Fin 2], [Fin 3, Fin 4]],
                        header = [''CRVAL1P'' \<mapsto> 12, ''CRVAL2P'' \<mapsto> 1044, ''CDELT1P'' \<mapsto> 1 / 50]\<rparr>]"

text \<open>The example file with images of one row and two columns.\<close>

definition example_file_wide :: "hdu list" where
  "example_file_wide = map (\<lambda>h. h\<lparr>data := [[Fin 1, Fin 2]]\<rparr>) example_file"

section \<open>Sums of the finite elements, and an example with a NaN\<close>

text \<open>The real value of a finite element, and 0 for every other element.\<close>

definition fin_part :: "fval \<Rightarrow> real" where
  "fin_part v = (case v of Fin a \<Rightarrow> a | _ \<Rightarrow> 0)"

definition rsum :: "fval list \<Rightarrow> real" where
  "rsum vs = sum_list (map fin_part vs)"

text \<open>The product \<open>s * cdelt1p[0] * cdelt2p[0]\<close> of a sum with the two pixel scales.\<close>

definition integral :: "fval \<Rightarrow> sample \<Rightarrow> fval" where
  "integral s s0 = fmul (fmul s (Fin (cdelt1p s0))) (Fin (cdelt2p s0))"

text \<open>The example file with a NaN in the first image extension.\<close>

definition example_file_nan :: "hdu list" where
  "example_file_nan =
     example_file[1 := \<lparr>data = [[Fin 1, NaN], [Fin 3, Fin 4]],
                        header = [''CRVAL1P'' \<mapsto> 12, ''CRVAL2P'' \<mapsto> 20, ''CDELT1P'' \<mapsto> 1 / 50, ''CDELT2P'' \<mapsto> 1 / 50]\<rparr>]"

definition example_samples_nan :: "sample list" where
  "example_samples_nan =
     example_samples[0 := \<lparr>prfn = [[Fin 1, NaN], [Fin 3, Fin 4]], crval1p = 12, crval2p = 20,
                            cdelt1p = 1 / 50, cdelt2p = 1 / 50\<rparr>]"

section \<open>Lemmas on strings, axes and shapes\<close>

lemma digits_small: "n < 10 \<Longrightarrow> digits n = [''0123456789'' ! n]"
  by (subst digits.simps) simp

lemma digits_big: "\<not> n < 10 \<Longrightarrow> digits n = digits (n div 10) @ [''0123456789'' ! (n mod 10)]"
  by (subst digits.simps) simp

lemma example_path: "prf_file_path ''/prf'' 13 2 = ''/prf/kplr13.2*_prf.fits''"
  by (simp add: prf_file_path_def path_join_def str_int_def digits_small digits_big)

lemma length_PRFaxis: "length (PRFaxis n c) = n"
  by (simp add: PRFaxis_def Let_def arange_def)

lemma range_n_hdu: "[0..<n_hdu] = [0, 1, 2, 3, 4]"
  by (simp add: n_hdu_def upt_rec)

lemma prfWeight_ge: "min_prf_weight \<le> prfWeight rc rr s"
  by (simp add: prfWeight_def Let_def)

lemma prfWeight_pos: "0 < prfWeight rc rr s"
proof -
  have "(0::real) < min_prf_weight" by (simp add: min_prf_weight_def)
  then show ?thesis using prfWeight_ge [of rc rr s] by linarith
qed

lemma np_shape_zeros: "np_shape (zeros (np_shape g)) = np_shape g"
  by (cases g) (simp_all add: np_shape_def zeros_def split: list.splits)

lemma np_shape_grid_div: "np_shape (grid_div g d) = np_shape g"
  by (cases g) (simp_all add: np_shape_def grid_div_def)

lemma np_shape_grid_add: "np_shape h = np_shape g \<Longrightarrow> np_shape (grid_add g h) = np_shape g"
  by (cases g) (cases h; simp add: np_shape_def grid_add_def)+

lemma np_shape_fuse:
  "list_all (\<lambda>s. np_shape (prfn s) = np_shape g) ss \<Longrightarrow> np_shape (fuse rc rr ss g) = np_shape g"
proof (induction ss arbitrary: g)
  case Nil
  then show ?case by simp
next
  case (Cons s ss)
  let ?p = "grid_add g (grid_div (prfn s) (Fin (prfWeight rc rr s)))"
  have p: "np_shape ?p = np_shape g"
    using Cons.prems by (simp add: np_shape_grid_add np_shape_grid_div)
  have "np_shape (fuse rc rr ss ?p) = np_shape ?p"
    using Cons.prems by (intro Cons.IH) (simp add: p)
  then show ?case by (simp add: p)
qed

lemma np_shape_fused_grid:
  "list_all (\<lambda>s. np_shape (prfn s) = np_shape (prfn s0)) ss \<Longrightarrow>
   np_shape (fused_grid sh c r s0 ss) = np_shape (prfn s0)"
  by (simp add: fused_grid_def accumulated_grid_def normalise_def np_shape_grid_div
      np_shape_fuse np_shape_zeros)

section \<open>Lemmas on the doubles\<close>

lemma round_half_even_of_int: "round_half_even (of_int k) = k"
  by (simp add: round_half_even_def)

lemma binade_eq:
  assumes "2 powr of_int e \<le> \<bar>x\<bar>" and "\<bar>x\<bar> < 2 powr of_int (e + 1)"
  shows "binade x = e"
proof -
  have "0 < (2::real) powr of_int e" by simp
  with assms(1) have pos: "0 < \<bar>x\<bar>" by linarith
  have "of_int e \<le> log 2 \<bar>x\<bar>"
    using assms(1) pos by (simp add: le_log_iff)
  moreover have "log 2 \<bar>x\<bar> < of_int (e + 1)"
    using assms(2) pos by (simp add: log_less_iff)
  ultimately show ?thesis
    unfolding binade_def by (simp add: floor_eq_iff)
qed

lemma binade_bounds:
  assumes "x \<noteq> 0"
  shows "2 powr of_int (binade x) \<le> \<bar>x\<bar>" and "\<bar>x\<bar> < 2 powr of_int (binade x + 1)"
proof -
  have pos: "0 < \<bar>x\<bar>" using assms by simp
  have "of_int (binade x) \<le> log 2 \<bar>x\<bar>"
    unfolding binade_def by (rule of_int_floor_le)
  then show "2 powr of_int (binade x) \<le> \<bar>x\<bar>"
    using pos by (simp add: le_log_iff)
  have "log 2 \<bar>x\<bar> < of_int (binade x) + 1"
    unfolding binade_def by linarith
  then have "log 2 \<bar>x\<bar> < of_int (binade x + 1)" by simp
  then show "\<bar>x\<bar> < 2 powr of_int (binade x + 1)"
    using pos by (simp add: log_less_iff)
qed

lemma binary64_exact:
  assumes "\<bar>k\<bar> < 2 ^ 53"
  shows "binary64 (of_int k * 2 powr of_int e) = of_int k * 2 powr of_int e"
proof (cases "k = 0")
  case True
  then show ?thesis by (simp add: binary64_def)
next
  case False
  define x :: real where "x = of_int k * 2 powr of_int e"
  define B where "B = binade x"
  have x0: "x \<noteq> 0" using False by (simp add: x_def)
  have "\<bar>x\<bar> = of_int \<bar>k\<bar> * 2 powr of_int e"
    by (simp add: x_def abs_mult)
  also have "\<dots> < 2 ^ 53 * 2 powr of_int e"
  proof -
    have "(of_int \<bar>k\<bar> :: real) < of_int (2 ^ 53)"
      using assms by (simp only: of_int_less_iff)
    then show ?thesis by simp
  qed
  also have "\<dots> = 2 powr of_int (53 + e)"
  proof -
    have "(2::real) ^ 53 = 2 powr of_int 53" by (simp add: powr_numeral [symmetric])
    then show ?thesis by (simp add: powr_add)
  qed
  finally have up: "\<bar>x\<bar> < 2 powr of_int (53 + e)" .
  from binade_bounds(1) [OF x0] up have "2 powr of_int B < (2::real) powr of_int (53 + e)"
    unfolding B_def by linarith
  then have "B < 53 + e" by simp
  then have "0 \<le> e - (B - 52)" by simp
  then obtain d where d: "e - (B - 52) = int d"
    using nonneg_int_cases by blast
  have "x / 2 powr of_int (B - 52) = of_int k * 2 powr (of_int e - of_int (B - 52))"
    by (simp add: x_def powr_diff)
  also have "of_int e - of_int (B - 52) = real d"
  proof -
    have "(of_int e - of_int (B - 52) :: real) = of_int (e - (B - 52))" by simp
    also have "\<dots> = real d" unfolding d by simp
    finally show ?thesis .
  qed
  also have "of_int k * 2 powr (real d) = of_int (k * 2 ^ d)"
    by (simp add: powr_realpow)
  finally have q: "x / 2 powr of_int (B - 52) = of_int (k * 2 ^ d)" .
  have u: "(2::real) powr of_int (B - 52) \<noteq> 0" by simp
  have "binary64 x = of_int (round_half_even (x / 2 powr of_int (B - 52))) * 2 powr of_int (B - 52)"
    using x0 by (simp add: binary64_def B_def)
  also have "\<dots> = of_int (k * 2 ^ d) * 2 powr of_int (B - 52)"
    unfolding q round_half_even_of_int ..
  also have "\<dots> = x"
    using q u by (simp add: field_simps)
  finally show ?thesis unfolding x_def .
qed

lemma binary64_exact_div:
  assumes "\<bar>k\<bar> < 2 ^ 53"
  shows "binary64 (of_int k / 2 ^ n) = of_int k / 2 ^ n"
proof -
  have "(of_int k / 2 ^ n :: real) = of_int k * 2 powr of_int (- int n)"
    by (simp add: powr_minus powr_realpow divide_inverse)
  with binary64_exact [OF assms, of "- int n"] show ?thesis by simp
qed

lemma binary64_exact_int:
  assumes "\<bar>k\<bar> < 2 ^ 53"
  shows "binary64 (of_int k) = of_int k"
  using binary64_exact_div [OF assms, of 0] by simp

lemma binary64_half_int:
  assumes "\<bar>k\<bar> < 2 ^ 52"
  shows "binary64 (of_int k + 1 / 2) = of_int k + 1 / 2"
proof -
  have eq: "(of_int k + 1 / 2 :: real) = of_int (2 * k + 1) / 2 ^ 1"
    by simp
  have p: "(2::int) ^ 53 = 2 * 2 ^ 52" by simp
  have "\<bar>2 * k + 1\<bar> < 2 * 2 ^ 52" using assms by linarith
  then have "\<bar>2 * k + 1\<bar> < 2 ^ 53" by (simp only: p)
  then have "binary64 (of_int (2 * k + 1) / 2 ^ 1) = of_int (2 * k + 1) / 2 ^ 1"
    by (rule binary64_exact_div)
  then show ?thesis
    by (simp only: eq)
qed

lemma binary64_round_normal:
  assumes "2 ^ e \<le> \<bar>x\<bar>" and "\<bar>x\<bar> < 2 ^ Suc e" and "e \<le> 52"
  shows "binary64 x = of_int (round_half_even (x * 2 ^ (52 - e))) / 2 ^ (52 - e)"
proof -
  have pe: "(2::real) powr of_int (int e) = 2 ^ e"
    by (simp add: powr_realpow)
  have pe1: "(2::real) powr of_int (int e + 1) = 2 ^ Suc e"
  proof -
    have "int e + 1 = int (Suc e)" by simp
    then have "(2::real) powr of_int (int e + 1) = 2 powr real (Suc e)"
      by (simp only: of_int_of_nat_eq)
    also have "\<dots> = 2 ^ Suc e"
      by (rule powr_realpow) simp
    finally show ?thesis .
  qed
  have b: "binade x = int e"
  proof (rule binade_eq)
    show "2 powr of_int (int e) \<le> \<bar>x\<bar>"
      using assms(1) by (simp only: pe)
    show "\<bar>x\<bar> < 2 powr of_int (int e + 1)"
      using assms(2) by (simp only: pe1)
  qed
  have "(0::real) < 2 ^ e" by simp
  with assms(1) have "0 < \<bar>x\<bar>" by linarith
  then have x0: "x \<noteq> 0" by simp
  have u: "(2::real) powr of_int (int e - 52) = 1 / 2 ^ (52 - e)"
  proof -
    have "int e - 52 = - int (52 - e)" using assms(3) by linarith
    then have "(2::real) powr of_int (int e - 52) = 2 powr (- real (52 - e))"
      by (simp only: of_int_minus of_int_of_nat_eq)
    also have "\<dots> = inverse (2 powr real (52 - e))"
      by (rule powr_minus)
    also have "\<dots> = inverse (2 ^ (52 - e))"
      by (simp only: powr_realpow [of 2, simplified])
    finally show ?thesis by (simp only: inverse_eq_divide)
  qed
  have "binary64 x =
      of_int (round_half_even (x / 2 powr of_int (binade x - 52))) * 2 powr of_int (binade x - 52)"
    unfolding binary64_def using x0 by (rule if_not_P)
  also have "\<dots> = of_int (round_half_even (x / (1 / 2 ^ (52 - e)))) * (1 / 2 ^ (52 - e))"
    unfolding b u ..
  also have "\<dots> = of_int (round_half_even (x * 2 ^ (52 - e))) / 2 ^ (52 - e)"
    by (simp only: divide_divide_eq_right times_divide_eq_right mult_1 mult_1_right div_by_1 mult.right_neutral mult.left_neutral)
  finally show ?thesis .
qed

lemma binary64_nat:
  assumes "int i < 2 ^ 51"
  shows "binary64 (real i) = real i"
proof -
  have "(2::int) ^ 53 = 4 * 2 ^ 51" by simp
  then have "\<bar>int i\<bar> < 2 ^ 53" using assms by linarith
  then have "binary64 (of_int (int i)) = of_int (int i)"
    by (rule binary64_exact_int)
  then show ?thesis by (simp only: of_int_of_nat_eq)
qed

lemma binary64_int_small:
  assumes "\<bar>k\<bar> < 2 ^ 51"
  shows "binary64 (of_int k) = of_int k"
proof -
  have "(2::int) ^ 53 = 4 * 2 ^ 51" by simp
  then have "\<bar>k\<bar> < 2 ^ 53" using assms by linarith
  then show ?thesis by (rule binary64_exact_int)
qed

lemma binary64_half_nat:
  assumes "\<bar>c\<bar> + int i < 2 ^ 51"
  shows "binary64 (of_int c + 1 / 2 + real i) = of_int c + 1 / 2 + real i"
proof -
  have eq: "(of_int c + 1 / 2 + real i :: real) = of_int (c + int i) + 1 / 2" by simp
  have "(2::int) ^ 52 = 2 * 2 ^ 51" by simp
  then have "\<bar>c + int i\<bar> < 2 ^ 52" using assms by linarith
  then have "binary64 (of_int (c + int i) + 1 / 2) = of_int (c + int i) + 1 / 2"
    by (rule binary64_half_int)
  then show ?thesis by (simp only: eq)
qed

lemma np_arange_half:
  assumes "\<bar>c\<bar> + int n < 2 ^ 51"
  shows "np_arange (of_int c + 1 / 2) (of_int c + real n + 1 / 2) =
           map (\<lambda>i. of_int c + 1 / 2 + real i) [0..<n]"
proof -
  let ?s = "of_int c + 1 / 2 :: real"
  have n: "binary64 (real n) = real n"
    using assms by (intro binary64_nat) linarith
  have el: "binary64 (?s + real i) = ?s + real i" if "i \<le> n" for i
    using assms that by (intro binary64_half_nat) linarith
  have ri: "binary64 (real i) = real i" if "i \<le> n" for i
    using assms that by (intro binary64_nat) linarith
  have df: "of_int c + real n + 1 / 2 - ?s = real n" by simp
  have len: "nat \<lceil>binary64 (binary64 (of_int c + real n + 1 / 2 - ?s) / 1)\<rceil> = n"
    unfolding df by (simp add: n)
  have "np_arange ?s (of_int c + real n + 1 / 2) =
      map (\<lambda>i. if i = 0 then ?s else if i = 1 then binary64 (?s + 1)
                else binary64 (?s + binary64 (real i * binary64 (binary64 (?s + 1) - ?s)))) [0..<n]"
    unfolding np_arange_def Let_def len ..
  also have "\<dots> = map (\<lambda>i. ?s + real i) [0..<n]"
  proof (rule map_cong [OF refl])
    fix i assume "i \<in> set [0..<n]"
    then have i: "i < n" by simp
    then have n1: "1 \<le> n" by simp
    have nx: "binary64 (?s + 1) = ?s + 1"
      using el [of 1] n1 by simp
    have "binary64 (?s + 1 - ?s) = 1"
      using ri [of 1] n1 by simp
    then have d: "binary64 (binary64 (?s + 1) - ?s) = 1"
      by (simp only: nx)
    have "binary64 (?s + binary64 (real i * 1)) = ?s + real i"
      using i by (simp add: ri el)
    then have e2: "binary64 (?s + binary64 (real i * binary64 (binary64 (?s + 1) - ?s))) = ?s + real i"
      by (simp only: d)
    show "(if i = 0 then ?s else if i = 1 then binary64 (?s + 1)
           else binary64 (?s + binary64 (real i * binary64 (binary64 (?s + 1) - ?s)))) = ?s + real i"
      using e2 nx by (cases "i = 0"; cases "i = 1") simp_all
  qed
  finally show ?thesis .
qed

lemma np_arange_int:
  assumes "\<bar>c\<bar> + int n < 2 ^ 51"
  shows "np_arange (binary64 (binary64 (of_int c) + 1 / 2))
           (binary64 (binary64 (of_int c + real n) + 1 / 2)) =
           map (\<lambda>i. of_int c + 1 / 2 + real i) [0..<n]"
proof -
  have a: "binary64 (of_int c) = of_int c"
    using assms by (intro binary64_int_small) linarith
  have "binary64 (of_int c + 1 / 2 + real 0) = of_int c + 1 / 2 + real 0"
    using assms by (intro binary64_half_nat) linarith
  then have b: "binary64 (of_int c + 1 / 2) = of_int c + 1 / 2" by simp
  have e: "(of_int c + real n :: real) = of_int (c + int n)" by simp
  have "\<bar>c + int n\<bar> < 2 ^ 51" using assms by linarith
  then have "binary64 (of_int (c + int n)) = of_int (c + int n)"
    by (rule binary64_int_small)
  then have c: "binary64 (of_int c + real n) = of_int c + real n"
    by (simp only: e)
  have "binary64 (of_int c + 1 / 2 + real n) = of_int c + 1 / 2 + real n"
    using assms by (intro binary64_half_nat) linarith
  then have d: "binary64 (of_int c + real n + 1 / 2) = of_int c + real n + 1 / 2"
    by (simp only: add.assoc add.commute [of "1 / 2" "real n"])
  show ?thesis
    unfolding a b c d using assms by (rule np_arange_half)
qed

lemma length_np_arange:
  "length (np_arange start stop) = nat \<lceil>binary64 (binary64 (stop - start) / 1)\<rceil>"
  by (simp add: np_arange_def Let_def)

lemma binary64_ratio:
  assumes "\<bar>k\<bar> < 2 ^ 53"
  shows "binary64 (of_int k / 4503599627370496) = of_int k / 4503599627370496"
proof -
  have "(4503599627370496::real) = 2 ^ 52" by simp
  then show ?thesis using binary64_exact_div [OF assms, of 52] by (simp only:)
qed

lemma example_column_double: "binary64 example_column = example_column"
  unfolding example_column_def
  using binary64_ratio [of 3152519739159347] by simp

lemma example_column_start:
  "binary64 (binary64 example_column + 1 / 2) = 5404319552844595 / 4503599627370496"
proof -
  have "binary64 (example_column + 1 / 2) = 5404319552844595 / 4503599627370496"
    unfolding example_column_def
    using binary64_ratio [of 5404319552844595] by simp
  then show ?thesis by (simp only: example_column_double)
qed

lemma example_column_stop:
  "binary64 (binary64 (example_column + real 1) + 1 / 2) = 4953959590107546 / 2251799813685248"
proof -
  have a: "binary64 (example_column + real 1) = 7656119366529843 / 4503599627370496"
    unfolding example_column_def
    using binary64_ratio [of 7656119366529843] by simp
  have x: "(7656119366529843 / 4503599627370496 + 1 / 2 :: real) =
      9907919180215091 / 4503599627370496" by simp
  have "binary64 (9907919180215091 / 4503599627370496) =
      of_int (round_half_even (9907919180215091 / 4503599627370496 * 2 ^ (52 - 1))) / 2 ^ (52 - 1)"
    by (rule binary64_round_normal) simp_all
  also have "(9907919180215091 / 4503599627370496 * 2 ^ (52 - 1) :: real) = 9907919180215091 / 2"
    by simp
  also have "round_half_even (9907919180215091 / 2) = 4953959590107546"
    by (simp add: round_half_even_def Let_def)
  finally have "binary64 (9907919180215091 / 4503599627370496) =
     4953959590107546 / 2251799813685248" by simp
  then show ?thesis by (simp only: a x)
qed

lemma example_column_length:
  "length (np_arange (binary64 (binary64 example_column + 1 / 2))
     (binary64 (binary64 (example_column + real 1) + 1 / 2))) = 2"
proof -
  have d: "(4953959590107546 / 2251799813685248 - 5404319552844595 / 4503599627370496 :: real)
      = 4503599627370497 / 4503599627370496" by simp
  have e: "binary64 (4503599627370497 / 4503599627370496) = 4503599627370497 / 4503599627370496"
    using binary64_ratio [of 4503599627370497] by simp
  have "nat \<lceil>binary64 (binary64 (4503599627370497 / 4503599627370496) / 1)\<rceil> = 2"
    unfolding e div_by_1 e by (simp add: ceiling_eq_iff)
  then show ?thesis
    by (simp only: length_np_arange example_column_start example_column_stop d)
qed

lemma footprint_axis_int:
  assumes "\<bar>c\<bar> + int n < 2 ^ 51"
  shows "footprint_axis (of_int c) n = map (\<lambda>i. of_int c + 1 / 2 + real i) [0..<n]"
  unfolding footprint_axis_def using assms by (rule np_arange_int)

lemma length_footprint_axis_int:
  assumes "\<bar>c\<bar> + int n < 2 ^ 51"
  shows "length (footprint_axis (of_int c) n) = n"
  by (simp add: footprint_axis_int [OF assms])

lemma example_column_axis:
  "length (col_coord (example_model (1, 1) example_column 200)) = 2 \<and>
   length (row_coord (example_model (1, 1) example_column 200)) = 1"
proof -
  have "length (footprint_axis example_column 1) = 2"
    unfolding footprint_axis_def by (rule example_column_length)
  moreover have "length (footprint_axis (of_int 200) 1) = 1"
    by (rule length_footprint_axis_int) simp
  ultimately show ?thesis by (simp add: example_model_def)
qed

section \<open>Lemmas on the constructor\<close>

lemma prepare_prf_coords:
  "prepare_prf E dir chan sh col rw = Inr (cc, rc, f) \<Longrightarrow>
   cc = footprint_axis col (snd sh) \<and>
   rc = footprint_axis rw (fst sh)"
  by (auto simp: prepare_prf_def Let_def split: sum.splits list.splits if_splits prod.splits)

lemma KeplerPRF_init_Inr:
  "KeplerPRF_init E chan sh col rw dir = Inr m \<Longrightarrow>
   prf_files_dir m = dir \<and> channel m = chan \<and> shape m = sh \<and> column m = col \<and> row m = rw \<and>
   col_coord m = footprint_axis col (snd sh) \<and>
   row_coord m = footprint_axis rw (fst sh) \<and>
   prf_model m = None"
  by (auto simp: KeplerPRF_init_def split: sum.splits prod.splits dest: prepare_prf_coords)

lemma example_read:
  "read_prf_images (example_env example_file) ''/prf/kplr13.2_2011265_prf.fits'' [0..<n_hdu]
   = Inr example_samples"
  by (simp add: range_n_hdu example_samples_def read_prf_calibration_file_def example_env_def
      example_file_def header_get_def example_hdu_def)

lemma example_shapes:
  "list_all (\<lambda>s. np_shape (prfn s) = np_shape (prfn (hd example_samples))) example_samples"
  by (simp add: example_samples_def np_shape_def)

lemma example_prepare:
  "prepare_prf (example_env example_file) ''/prf'' 42 sh col rw =
     Inr (footprint_axis col (snd sh),
          footprint_axis rw (fst sh), example_interpolant)"
proof -
  let ?E = "example_env example_file"
  obtain s0 ss where ss: "example_samples = s0 # ss" "s0 = hd example_samples"
    by (simp add: example_samples_def)
  have c: "channel_to_module_output ?E 42 = Inr (13, 2)"
    by (simp add: example_env_def)
  have g: "glob ?E (prf_file_path ''/prf'' 13 2) = [''/prf/kplr13.2_2011265_prf.fits'']"
    by (simp add: example_path) (simp add: example_env_def)
  have a: "list_all (\<lambda>s. np_shape (prfn s) = np_shape (prfn s0)) (s0 # ss)"
    using example_shapes ss by simp
  have sh: "np_shape (fused_grid sh col rw s0 (s0 # ss)) = np_shape (prfn s0)"
    using a by (rule np_shape_fused_grid)
  have s0: "np_shape (prfn s0) = (2, 2)"
    by (simp add: ss(2) example_samples_def np_shape_def)
  have f: "RectBivariateSpline ?E (PRFaxis 2 c1) (PRFaxis 2 c2)
             (fused_grid sh col rw s0 (s0 # ss)) = Inr example_interpolant" for c1 c2
    by (simp add: example_env_def example_spline_def sh s0 length_PRFaxis)
  show ?thesis
    using a by (simp add: prepare_prf_def c g example_read ss(1) Let_def s0 f)
qed

lemma example_init:
  "KeplerPRF_init (example_env example_file) 42 sh col rw ''/prf'' = Inr (example_model sh col rw)"
  by (simp add: KeplerPRF_init_def example_prepare example_model_def)

section \<open>The claims\<close>

text \<open>
  C9. For a column \<open>c\<close> and a row \<open>r\<close> that are integers, with \<open>\<bar>c\<bar> + cols\<close> and \<open>\<bar>r\<bar> + rows\<close>
  below \<open>2 ^ 51\<close>, the footprint axes built by the constructor are exact: \<open>col_coord\<close> has
  \<open>shape.cols\<close> elements and \<open>row_coord\<close> has \<open>shape.rows\<close>; the element of index \<open>i\<close> is the
  pixel centre \<open>c + 0.5 + i\<close> (respectively \<open>r + 0.5 + j\<close>), so that consecutive elements
  differ by one and both axes are strictly increasing.
\<close>

theorem C9_footprint_axes:
  assumes "KeplerPRF_init E chan (rows, cols) (of_int c) (of_int r) dir = Inr m"
    and "\<bar>c\<bar> + int cols < 2 ^ 51" and "\<bar>r\<bar> + int rows < 2 ^ 51"
  shows "length (col_coord m) = cols \<and> length (row_coord m) = rows \<and>
         (\<forall>i<cols. col_coord m ! i = of_int c + 1 / 2 + real i) \<and>
         (\<forall>j<rows. row_coord m ! j = of_int r + 1 / 2 + real j) \<and>
         (\<forall>i. Suc i < cols \<longrightarrow> col_coord m ! Suc i = col_coord m ! i + 1) \<and>
         (\<forall>j. Suc j < rows \<longrightarrow> row_coord m ! Suc j = row_coord m ! j + 1) \<and>
         sorted_wrt (<) (col_coord m) \<and> sorted_wrt (<) (row_coord m)"
proof -
  from KeplerPRF_init_Inr [OF assms(1)]
  have "col_coord m = footprint_axis (of_int c) cols"
    and "row_coord m = footprint_axis (of_int r) rows"
    by simp_all
  then have cc: "col_coord m = map (\<lambda>i. of_int c + 1 / 2 + real i) [0..<cols]"
    and rc: "row_coord m = map (\<lambda>j. of_int r + 1 / 2 + real j) [0..<rows]"
    by (simp_all only: footprint_axis_int [OF assms(2)] footprint_axis_int [OF assms(3)])
  have lc: "length (col_coord m) = cols" by (simp add: cc)
  have lr: "length (row_coord m) = rows" by (simp add: rc)
  have nc: "col_coord m ! i = of_int c + 1 / 2 + real i" if "i < cols" for i
    using that by (simp add: cc)
  have nr: "row_coord m ! j = of_int r + 1 / 2 + real j" if "j < rows" for j
    using that by (simp add: rc)
  have sc: "sorted_wrt (<) (col_coord m)"
    unfolding sorted_wrt_iff_nth_less using lc by (simp add: nc)
  have sr: "sorted_wrt (<) (row_coord m)"
    unfolding sorted_wrt_iff_nth_less using lr by (simp add: nr)
  show ?thesis
    using lc lr sc sr by (simp add: nc nr)
qed

theorem C9_footprint_axes_witness:
  "KeplerPRF_init (example_env example_file) 42 (2, 3) 100 200 ''/prf'' = Inr (example_model (2, 3) 100 200) \<and>
   length (col_coord (example_model (2, 3) 100 200)) = 3 \<and>
   length (row_coord (example_model (2, 3) 100 200)) = 2 \<and>
   col_coord (example_model (2, 3) 100 200) ! 2 = 205 / 2 \<and>
   row_coord (example_model (2, 3) 100 200) ! 1 = 403 / 2"
proof -
  have i: "KeplerPRF_init (example_env example_file) 42 (2, 3) 100 200 ''/prf'' = Inr (example_model (2, 3) 100 200)"
    by (rule example_init)
  then have i': "KeplerPRF_init (example_env example_file) 42 (2, 3) (of_int 100) (of_int 200) ''/prf'' =
      Inr (example_model (2, 3) 100 200)"
    by simp
  have b: "\<bar>100\<bar> + int 3 < (2::int) ^ 51" "\<bar>200\<bar> + int 2 < (2::int) ^ 51"
    by simp_all
  from C9_footprint_axes [OF i' b] show ?thesis using i by simp
qed

text \<open>
  C9, as stated for every real column, fails for the column 0.7 and a footprint of one
  row and one column: 0.7 is a double, the model is constructed, and \<open>col_coord\<close>, which is
  \<open>np.arange(1.2, 2.2)\<close> with the difference \<open>1 + 2 ^ -52\<close> of the two doubles, has two
  elements, not one.
\<close>

theorem C9_fractional_column_counterexample:
  "binary64 example_column = example_column \<and>
   KeplerPRF_init (example_env example_file) 42 (1, 1) example_column 200 ''/prf'' =
     Inr (example_model (1, 1) example_column 200) \<and>
   shape (example_model (1, 1) example_column 200) = (1, 1) \<and>
   length (col_coord (example_model (1, 1) example_column 200)) = 2"
proof -
  have "shape (example_model (1, 1) example_column 200) = (1, 1)"
    by (simp add: example_model_def)
  with example_column_double example_column_axis show ?thesis
    by (simp only: example_init simp_thms)
qed



section \<open>Lemmas on the evaluation\<close>

lemma prf_to_detector_infinite:
  "rot = PInf \<or> rot = NInf \<Longrightarrow>
   prf_to_detector m fl cc cr sc sr rot = (Inl (Exn ''ValueError''), m)"
  by (auto simp: prf_to_detector_def)

lemma prf_to_detector_empty:
  "row_coord m = [] \<or> col_coord m = [] \<Longrightarrow> rot \<noteq> PInf \<Longrightarrow> rot \<noteq> NInf \<Longrightarrow>
   prf_to_detector m fl cc cr sc sr rot = (Inl (Exn ''IndexError''), m)"
  by (cases rot) (auto simp: prf_to_detector_def Let_def split: list.splits)

lemma prf_to_detector_nonempty:
  "row_coord m \<noteq> [] \<Longrightarrow> col_coord m \<noteq> [] \<Longrightarrow> rot \<noteq> PInf \<Longrightarrow> rot \<noteq> NInf \<Longrightarrow>
   prf_to_detector m fl cc cr sc sr rot =
     (case interpolate m (map (\<lambda>d. d * sr) (map (\<lambda>r. r - cr) (row_coord m)))
                         (map (\<lambda>d. d * sc) (map (\<lambda>c. c - cc) (col_coord m))) of
        Inl e \<Rightarrow> (Inl e, m)
      | Inr g \<Rightarrow> (Inr (grid_scale (Fin fl) g), m\<lparr>prf_model := Some (grid_scale (Fin fl) g)\<rparr>))"
  by (cases rot; cases "row_coord m"; cases "col_coord m")
     (simp_all add: prf_to_detector_def Let_def split: sum.splits)



lemma has_shape_grid_scale: "has_shape (grid_scale k g) sh = has_shape g sh"
  by (simp add: has_shape_def grid_scale_def list_all_iff)

lemma example_axes:
  "col_coord (example_model (2, 3) 100 200) = [201 / 2, 203 / 2, 205 / 2] \<and>
   row_coord (example_model (2, 3) 100 200) = [401 / 2, 403 / 2]"
proof -
  have u: "[0..<3] = [0, 1, 2]" "[0..<2] = [0, 1]" by (simp_all add: upt_rec)
  have "footprint_axis (of_int 100) 3 = [201 / 2, 203 / 2, 205 / 2]"
    by (subst footprint_axis_int) (simp_all add: u)
  moreover have "footprint_axis (of_int 200) 2 = [401 / 2, 403 / 2]"
    by (subst footprint_axis_int) (simp_all add: u)
  ultimately show ?thesis by (simp add: example_model_def)
qed

lemma example_empty_axis: "row_coord (example_model (0, 3) 100 200) = []"
proof -
  have "footprint_axis (of_int 200) 0 = []"
    by (subst footprint_axis_int) simp_all
  then show ?thesis by (simp add: example_model_def)
qed

lemma example_evaluate:
  assumes "rot \<noteq> PInf" and "rot \<noteq> NInf"
  shows "evaluate (example_model (2, 3) 100 200) fl cc cr sc sr rot =
     (Inr [[Fin fl, Fin fl, Fin fl], [Fin fl, Fin fl, Fin fl]],
      (example_model (2, 3) 100 200)
        \<lparr>prf_model := Some [[Fin fl, Fin fl, Fin fl], [Fin fl, Fin fl, Fin fl]]\<rparr>)"
proof -
  have i: "interpolate (example_model (2, 3) 100 200) = example_interpolant"
    by (simp add: example_model_def)
  have r: "replicate 2 (replicate 3 (Fin 1)) = [[Fin 1, Fin 1, Fin 1], [Fin 1, Fin 1, Fin 1]]"
    by (simp add: numeral_2_eq_2 numeral_3_eq_3)
  have ne: "row_coord (example_model (2, 3) 100 200) \<noteq> []"
    "col_coord (example_model (2, 3) 100 200) \<noteq> []"
    by (simp_all add: example_axes)
  show ?thesis
    unfolding evaluate_def prf_to_detector_nonempty [OF ne assms]
    by (simp add: example_axes i example_interpolant_def r grid_scale_def)
qed

lemma example_evaluate_wide:
  "evaluate (example_model (1, 1) example_column 200) fl cc cr sc sr (Fin rot) =
     (Inr [[Fin fl, Fin fl]],
      (example_model (1, 1) example_column 200)\<lparr>prf_model := Some [[Fin fl, Fin fl]]\<rparr>)"
proof -
  define m where "m = example_model (1, 1) example_column 200"
  have i: "interpolate m = example_interpolant"
    by (simp add: m_def example_model_def)
  have lc: "length (col_coord m) = 2" and lr: "length (row_coord m) = 1"
    unfolding m_def using example_column_axis by blast+
  have ne: "row_coord m \<noteq> []" "col_coord m \<noteq> []"
    using lc lr by auto
  have f: "Fin rot \<noteq> PInf" "Fin rot \<noteq> NInf" by simp_all
  have "prf_to_detector m fl cc cr sc sr (Fin rot) =
      (Inr [[Fin fl, Fin fl]], m\<lparr>prf_model := Some [[Fin fl, Fin fl]]\<rparr>)"
    unfolding prf_to_detector_nonempty [OF ne f]
    by (simp add: i example_interpolant_def lc lr grid_scale_def numeral_2_eq_2)
  then show ?thesis
    unfolding evaluate_def m_def .
qed

text \<open>
  C2. The rotation does not reach the result, unless it is infinite: for every flux,
  centroid and stretch, and every rotation that is finite or NaN, \<open>prf_to_detector\<close> (and
  \<open>evaluate\<close>) returns what the call with the rotation 0 returns, and leaves the model in
  the same state. For an infinite rotation \<open>math.cos\<close> raises \<open>ValueError\<close>.
\<close>

theorem C2_rotation_unused:
  "(rot \<noteq> PInf \<and> rot \<noteq> NInf \<longrightarrow>
      prf_to_detector m fl cc cr sc sr rot = prf_to_detector m fl cc cr sc sr (Fin 0) \<and>
      evaluate m fl cc cr sc sr rot = evaluate m fl cc cr sc sr (Fin 0)) \<and>
   (rot = PInf \<or> rot = NInf \<longrightarrow>
      evaluate m fl cc cr sc sr rot = (Inl (Exn ''ValueError''), m))"
  by (cases rot) (simp_all add: evaluate_def prf_to_detector_def Let_def split: list.splits)

theorem C2_rotation_unused_witness:
  "evaluate (example_model (2, 3) 100 200) 7 101 201 1 1 (Fin (3 / 2)) =
     evaluate (example_model (2, 3) 100 200) 7 101 201 1 1 (Fin 0) \<and>
   fst (evaluate (example_model (2, 3) 100 200) 7 101 201 1 1 (Fin (3 / 2))) =
     Inr [[Fin 7, Fin 7, Fin 7], [Fin 7, Fin 7, Fin 7]] \<and>
   evaluate (example_model (2, 3) 100 200) 7 101 201 1 1 NInf =
     (Inl (Exn ''ValueError''), example_model (2, 3) 100 200)"
  using C2_rotation_unused [of "Fin (3 / 2)" "example_model (2, 3) 100 200" 7 101 201 1 1]
    C2_rotation_unused [of NInf "example_model (2, 3) 100 200" 7 101 201 1 1]
  by (simp add: example_evaluate)

text \<open>
  C2, as stated for every rotation, fails for the rotation \<open>float('inf')\<close>: the call
  raises \<open>ValueError\<close>, and the call with the rotation 0 returns an array.
\<close>

theorem C2_infinite_rotation_counterexample:
  "fst (evaluate (example_model (2, 3) 100 200) 7 101 201 1 1 PInf) = Inl (Exn ''ValueError'') \<and>
   fst (evaluate (example_model (2, 3) 100 200) 7 101 201 1 1 (Fin 0)) =
     Inr [[Fin 7, Fin 7, Fin 7], [Fin 7, Fin 7, Fin 7]]"
  by (simp add: example_evaluate) (simp add: evaluate_def prf_to_detector_infinite)



text \<open>
  C8. A call of \<open>evaluate\<close> leaves \<open>prf_files_dir\<close>, \<open>channel\<close>, \<open>shape\<close>, \<open>column\<close>, \<open>row\<close>,
  \<open>col_coord\<close>, \<open>row_coord\<close> and \<open>interpolate\<close> as they were; when it returns an array, the
  model after the call is the model before with \<open>prf_model\<close> set to that array, and when
  it raises the model is unchanged; a second call with the same arguments on the model
  after the first returns the same result.
\<close>

theorem C8_evaluate_frame:
  "channel (snd (evaluate m fl cc cr sc sr rot)) = channel m \<and>
   shape (snd (evaluate m fl cc cr sc sr rot)) = shape m \<and>
   column (snd (evaluate m fl cc cr sc sr rot)) = column m \<and>
   row (snd (evaluate m fl cc cr sc sr rot)) = row m \<and>
   col_coord (snd (evaluate m fl cc cr sc sr rot)) = col_coord m \<and>
   row_coord (snd (evaluate m fl cc cr sc sr rot)) = row_coord m \<and>
   interpolate (snd (evaluate m fl cc cr sc sr rot)) = interpolate m \<and>
   prf_files_dir (snd (evaluate m fl cc cr sc sr rot)) = prf_files_dir m \<and>
   snd (evaluate m fl cc cr sc sr rot) =
     (case fst (evaluate m fl cc cr sc sr rot) of
        Inl e \<Rightarrow> m
      | Inr g \<Rightarrow> m\<lparr>prf_model := Some g\<rparr>) \<and>
   fst (evaluate (snd (evaluate m fl cc cr sc sr rot)) fl cc cr sc sr rot) =
     fst (evaluate m fl cc cr sc sr rot)"
proof (cases "rot = PInf \<or> rot = NInf")
  case True
  then show ?thesis
    by (simp add: evaluate_def prf_to_detector_infinite)
next
  case fin: False
  then have f: "rot \<noteq> PInf" "rot \<noteq> NInf" by simp_all
  show ?thesis
  proof (cases "row_coord m = [] \<or> col_coord m = []")
    case True
    then show ?thesis
      by (simp add: evaluate_def prf_to_detector_empty [OF _ f])
  next
    case False
    then have ne: "row_coord m \<noteq> []" "col_coord m \<noteq> []" by simp_all
    let ?q = "interpolate m (map (\<lambda>d. d * sr) (map (\<lambda>r. r - cr) (row_coord m)))
                            (map (\<lambda>d. d * sc) (map (\<lambda>c. c - cc) (col_coord m)))"
    show ?thesis
    proof (cases ?q)
      case (Inl e)
      then have "prf_to_detector m fl cc cr sc sr rot = (Inl e, m)"
        by (simp add: prf_to_detector_nonempty [OF ne f])
      then show ?thesis by (simp add: evaluate_def)
    next
      case (Inr g)
      let ?m' = "m\<lparr>prf_model := Some (grid_scale (Fin fl) g)\<rparr>"
      have one: "prf_to_detector m fl cc cr sc sr rot = (Inr (grid_scale (Fin fl) g), ?m')"
        using Inr by (simp add: prf_to_detector_nonempty [OF ne f])
      have ne': "row_coord ?m' \<noteq> []" "col_coord ?m' \<noteq> []" using ne by simp_all
      have two: "prf_to_detector ?m' fl cc cr sc sr rot =
                   (Inr (grid_scale (Fin fl) g), ?m'\<lparr>prf_model := Some (grid_scale (Fin fl) g)\<rparr>)"
        using Inr by (simp add: prf_to_detector_nonempty [OF ne' f])
      show ?thesis by (simp add: evaluate_def one two)
    qed
  qed
qed

theorem C8_evaluate_frame_witness:
  "snd (evaluate (example_model (2, 3) 100 200) 7 101 201 1 1 (Fin 0)) =
     (example_model (2, 3) 100 200)
       \<lparr>prf_model := Some [[Fin 7, Fin 7, Fin 7], [Fin 7, Fin 7, Fin 7]]\<rparr> \<and>
   fst (evaluate (snd (evaluate (example_model (2, 3) 100 200) 7 101 201 1 1 (Fin 0)))
          7 101 201 1 1 (Fin 0)) =
     Inr [[Fin 7, Fin 7, Fin 7], [Fin 7, Fin 7, Fin 7]]"
  using C8_evaluate_frame [of "example_model (2, 3) 100 200" 7 101 201 1 1 "Fin 0"]
  by (simp add: example_evaluate)

text \<open>
  C5. For a model built for a footprint of at least one row and one column, at a column
  \<open>c\<close> and a row \<open>r\<close> that are integers with \<open>\<bar>c\<bar> + cols\<close> and \<open>\<bar>r\<bar> + rows\<close> below \<open>2 ^ 51\<close>,
  whenever the interpolant returns for the offsets of the call, and returns for
  coordinate vectors \<open>xs\<close> and \<open>ys\<close> an array of \<open>length xs\<close> rows and \<open>length ys\<close> columns (as
  SciPy's does), \<open>evaluate\<close> with finite arguments returns an array whose shape is the
  \<open>shape\<close> of the model, \<open>(rows, cols)\<close>. An empty footprint is excluded: there
  \<open>delta_row[0]\<close> or \<open>delta_col[0]\<close> raises. A fractional column or row is excluded: there
  the footprint axis may have one element more than the footprint.
\<close>

theorem C5_evaluate_shape:
  assumes "KeplerPRF_init E chan (rows, cols) (of_int c) (of_int r) dir = Inr m"
    and "\<bar>c\<bar> + int cols < 2 ^ 51" and "\<bar>r\<bar> + int rows < 2 ^ 51"
    and "0 < rows" and "0 < cols"
    and "\<forall>xs ys g. interpolate m xs ys = Inr g \<longrightarrow> has_shape g (length xs, length ys)"
    and "interpolate m (map (\<lambda>d. d * sr) (map (\<lambda>r. r - cr) (row_coord m)))
                       (map (\<lambda>d. d * sc) (map (\<lambda>c. c - cc) (col_coord m))) = Inr g0"
  shows "shape m = (rows, cols) \<and>
         fst (evaluate m fl cc cr sc sr (Fin rot)) = Inr (grid_scale (Fin fl) g0) \<and>
         has_shape (grid_scale (Fin fl) g0) (shape m)"
proof -
  from KeplerPRF_init_Inr [OF assms(1)]
  have sh: "shape m = (rows, cols)"
    and cc: "col_coord m = footprint_axis (of_int c) cols"
    and rc: "row_coord m = footprint_axis (of_int r) rows"
    by simp_all
  have lc: "length (col_coord m) = cols"
    unfolding cc using assms(2) by (rule length_footprint_axis_int)
  have lr: "length (row_coord m) = rows"
    unfolding rc using assms(3) by (rule length_footprint_axis_int)
  have ne: "row_coord m \<noteq> []" "col_coord m \<noteq> []"
    using lc lr assms(4,5) by auto
  have f: "Fin rot \<noteq> PInf" "Fin rot \<noteq> NInf" by simp_all
  have ev: "fst (evaluate m fl cc cr sc sr (Fin rot)) = Inr (grid_scale (Fin fl) g0)"
    using assms(7) by (simp add: evaluate_def prf_to_detector_nonempty [OF ne f])
  have "has_shape g0 (rows, cols)"
    using assms(6,7) lc lr by fastforce
  then show ?thesis
    using sh ev by (simp add: has_shape_grid_scale)
qed

theorem C5_evaluate_shape_witness:
  "KeplerPRF_init (example_env example_file) 42 (2, 3) 100 200 ''/prf'' =
     Inr (example_model (2, 3) 100 200) \<and>
   shape (example_model (2, 3) 100 200) = (2, 3) \<and>
   fst (evaluate (example_model (2, 3) 100 200) 7 101 201 1 1 (Fin 0)) =
     Inr (grid_scale (Fin 7) [[Fin 1, Fin 1, Fin 1], [Fin 1, Fin 1, Fin 1]]) \<and>
   has_shape (grid_scale (Fin 7) [[Fin 1, Fin 1, Fin 1], [Fin 1, Fin 1, Fin 1]])
     (shape (example_model (2, 3) 100 200))"
proof -
  let ?m = "example_model (2, 3) 100 200"
  have i: "KeplerPRF_init (example_env example_file) 42 (2, 3) 100 200 ''/prf'' = Inr ?m"
    by (rule example_init)
  then have i': "KeplerPRF_init (example_env example_file) 42 (2, 3) (of_int 100) (of_int 200)
      ''/prf'' = Inr ?m"
    by simp
  have b: "\<bar>100\<bar> + int 3 < (2::int) ^ 51" "\<bar>200\<bar> + int 2 < (2::int) ^ 51"
    by simp_all
  have c: "\<forall>xs ys g. interpolate ?m xs ys = Inr g \<longrightarrow> has_shape g (length xs, length ys)"
    by (auto simp: example_model_def example_interpolant_def has_shape_def list_all_iff)
  have q: "interpolate ?m (map (\<lambda>d. d * 1) (map (\<lambda>r. r - 201) (row_coord ?m)))
             (map (\<lambda>d. d * 1) (map (\<lambda>c. c - 101) (col_coord ?m))) =
           Inr [[Fin 1, Fin 1, Fin 1], [Fin 1, Fin 1, Fin 1]]"
    by (simp add: example_axes) (simp add: example_model_def example_interpolant_def
      numeral_2_eq_2 numeral_3_eq_3)
  have p: "(0::nat) < 2" "(0::nat) < 3" by simp_all
  from C5_evaluate_shape [OF i' b p c q, of 7 0] show ?thesis
    using i by blast
qed

text \<open>
  C5, as stated, fails for an empty footprint: a model is constructed with the shape
  \<open>(0, 3)\<close>, and \<open>evaluate\<close> raises \<open>IndexError\<close>. It fails for a fractional column as well:
  with the column 0.7 and the shape \<open>(1, 1)\<close>, \<open>evaluate\<close> returns an array of one row and
  two columns.
\<close>

theorem C5_empty_footprint_counterexample:
  "KeplerPRF_init (example_env example_file) 42 (0, 3) 100 200 ''/prf'' =
     Inr (example_model (0, 3) 100 200) \<and>
   shape (example_model (0, 3) 100 200) = (0, 3) \<and>
   fst (evaluate (example_model (0, 3) 100 200) 1 101 200 1 1 (Fin 0)) = Inl (Exn ''IndexError'') \<and>
   KeplerPRF_init (example_env example_file) 42 (1, 1) example_column 200 ''/prf'' =
     Inr (example_model (1, 1) example_column 200) \<and>
   shape (example_model (1, 1) example_column 200) = (1, 1) \<and>
   fst (evaluate (example_model (1, 1) example_column 200) 1 1 201 1 1 (Fin 0)) =
     Inr [[Fin 1, Fin 1]] \<and>
   np_shape [[Fin 1, Fin 1]] = (1, 2)"
proof -
  have "prf_to_detector (example_model (0, 3) 100 200) 1 101 200 1 1 (Fin 0) =
      (Inl (Exn ''IndexError''), example_model (0, 3) 100 200)"
    by (rule prf_to_detector_empty) (simp_all add: example_empty_axis)
  then have a: "fst (evaluate (example_model (0, 3) 100 200) 1 101 200 1 1 (Fin 0)) =
      Inl (Exn ''IndexError'')"
    by (simp add: evaluate_def)
  have b: "fst (evaluate (example_model (1, 1) example_column 200) 1 1 201 1 1 (Fin 0)) =
      Inr [[Fin 1, Fin 1]]"
    by (simp only: example_evaluate_wide fst_conv)
  have c: "shape (example_model (0, 3) 100 200) = (0, 3)"
    "shape (example_model (1, 1) example_column 200) = (1, 1)"
    by (simp_all add: example_model_def)
  have d: "np_shape [[Fin 1, Fin 1]] = (1, 2)"
    by (simp add: np_shape_def)
  from a b c d show ?thesis
    by (simp only: example_init simp_thms)
qed



section \<open>Lemmas on reading the calibration file\<close>

lemma read_file_IndexError:
  "fits_open E p = Inr hdus \<Longrightarrow> length hdus \<le> ext \<Longrightarrow>
   read_prf_calibration_file E p ext = Inl (Exn ''IndexError'')"
  by (simp add: read_prf_calibration_file_def)

lemma read_file_KeyError:
  "fits_open E p = Inr hdus \<Longrightarrow> ext < length hdus \<Longrightarrow> \<not> complete_header (hdus ! ext) \<Longrightarrow>
   read_prf_calibration_file E p ext = Inl (Exn ''KeyError'')"
  by (auto simp: read_prf_calibration_file_def complete_header_def required_keys_def
      header_get_def Let_def split: option.splits)

lemma read_file_Inr:
  "fits_open E p = Inr hdus \<Longrightarrow> ext < length hdus \<Longrightarrow> complete_header (hdus ! ext) \<Longrightarrow>
   \<exists>s. read_prf_calibration_file E p ext = Inr s"
  by (auto simp: read_prf_calibration_file_def complete_header_def required_keys_def
      header_get_def Let_def split: option.splits)

lemma read_images_KeyError:
  "fits_open E p = Inr hdus \<Longrightarrow> \<forall>i\<in>set is. i + 1 < length hdus \<Longrightarrow>
   \<exists>i\<in>set is. \<not> complete_header (hdus ! (i + 1)) \<Longrightarrow>
   read_prf_images E p is = Inl (Exn ''KeyError'')"
proof (induction "is")
  case Nil
  then show ?case by simp
next
  case (Cons i "is")
  show ?case
  proof (cases "complete_header (hdus ! (i + 1))")
    case True
    with Cons.prems obtain s where s: "read_prf_calibration_file E p (i + 1) = Inr s"
      using read_file_Inr [of E p hdus "i + 1"] by auto
    from True Cons.prems have "\<exists>j\<in>set is. \<not> complete_header (hdus ! (j + 1))" by auto
    with Cons have "read_prf_images E p is = Inl (Exn ''KeyError'')" by simp
    with s show ?thesis by simp
  next
    case False
    with Cons.prems have "read_prf_calibration_file E p (i + 1) = Inl (Exn ''KeyError'')"
      using read_file_KeyError [of E p hdus "i + 1"] by auto
    then show ?thesis by simp
  qed
qed

lemma read_images_short:
  "fits_open E p = Inr hdus \<Longrightarrow> \<exists>i\<in>set is. length hdus \<le> i + 1 \<Longrightarrow>
   (read_prf_images E p is = Inl (Exn ''IndexError'') \<or>
    read_prf_images E p is = Inl (Exn ''KeyError'')) \<and>
   (list_all complete_header (tl hdus) \<longrightarrow> read_prf_images E p is = Inl (Exn ''IndexError''))"
proof (induction "is")
  case Nil
  then show ?case by simp
next
  case (Cons i "is")
  show ?case
  proof (cases "length hdus \<le> i + 1")
    case True
    with Cons.prems have "read_prf_calibration_file E p (i + 1) = Inl (Exn ''IndexError'')"
      by (simp add: read_file_IndexError)
    then show ?thesis by simp
  next
    case False
    then have lt: "i + 1 < length hdus" by simp
    from False Cons.prems have ex: "\<exists>j\<in>set is. length hdus \<le> j + 1" by auto
    note IH = Cons.IH [OF Cons.prems(1) ex]
    show ?thesis
    proof (cases "complete_header (hdus ! (i + 1))")
      case True
      with Cons.prems lt obtain s where s: "read_prf_calibration_file E p (i + 1) = Inr s"
        using read_file_Inr [of E p hdus "i + 1"] by auto
      with IH show ?thesis by auto
    next
      case False
      with Cons.prems lt have k: "read_prf_calibration_file E p (i + 1) = Inl (Exn ''KeyError'')"
        using read_file_KeyError [of E p hdus "i + 1"] by auto
      have "hdus ! (i + 1) \<in> set (tl hdus)"
        using lt by (cases hdus) auto
      with False have "\<not> list_all complete_header (tl hdus)"
        by (auto simp: list_all_iff)
      with k show ?thesis by simp
    qed
  qed
qed

lemma prepare_prf_read_error:
  "channel_to_module_output E chan = Inr (mo, ou) \<Longrightarrow>
   glob E (prf_file_path dir mo ou) = p # ps \<Longrightarrow>
   read_prf_images E p [0..<n_hdu] = Inl e \<Longrightarrow>
   prepare_prf E dir chan sh col rw = Inl e"
  by (simp add: prepare_prf_def)

lemma KeplerPRF_init_Inl:
  "prepare_prf E dir chan sh col rw = Inl e \<Longrightarrow> KeplerPRF_init E chan sh col rw dir = Inl e"
  by (simp add: KeplerPRF_init_def)

text \<open>
  C4. When no file matches the pattern built from the module and the output of the
  channel, the constructor fails with \<open>IndexError\<close> (of \<open>glob.glob(...)[0]\<close>). When the
  first matching file opens and has fewer than five image extensions after the primary
  one, it fails with \<open>IndexError\<close>, or with \<open>KeyError\<close> if an extension read before lacks
  a header field. When the file has the five extensions and one of them lacks one of
  \<open>CRVAL1P\<close>, \<open>CRVAL2P\<close>, \<open>CDELT1P\<close>, \<open>CDELT2P\<close>, it fails with \<open>KeyError\<close>. In each
  case the constructor returns no model.
\<close>

theorem C4_construction_errors:
  assumes "channel_to_module_output E chan = Inr (mo, ou)"
  shows "(glob E (prf_file_path dir mo ou) = [] \<longrightarrow>
            KeplerPRF_init E chan sh col rw dir = Inl (Exn ''IndexError'')) \<and>
         (\<forall>p ps hdus. glob E (prf_file_path dir mo ou) = p # ps \<and> fits_open E p = Inr hdus \<and>
            length hdus \<le> n_hdu \<longrightarrow>
            (KeplerPRF_init E chan sh col rw dir = Inl (Exn ''IndexError'') \<or>
             KeplerPRF_init E chan sh col rw dir = Inl (Exn ''KeyError'')) \<and>
            (list_all complete_header (tl hdus) \<longrightarrow>
               KeplerPRF_init E chan sh col rw dir = Inl (Exn ''IndexError''))) \<and>
         (\<forall>p ps hdus. glob E (prf_file_path dir mo ou) = p # ps \<and> fits_open E p = Inr hdus \<and>
            n_hdu < length hdus \<and> \<not> list_all complete_header (take n_hdu (tl hdus)) \<longrightarrow>
            KeplerPRF_init E chan sh col rw dir = Inl (Exn ''KeyError''))"
proof -
  have none: "KeplerPRF_init E chan sh col rw dir = Inl (Exn ''IndexError'')"
    if "glob E (prf_file_path dir mo ou) = []"
    using that assms by (simp add: KeplerPRF_init_def prepare_prf_def)
  have short: "(KeplerPRF_init E chan sh col rw dir = Inl (Exn ''IndexError'') \<or>
                KeplerPRF_init E chan sh col rw dir = Inl (Exn ''KeyError'')) \<and>
               (list_all complete_header (tl hdus) \<longrightarrow>
                  KeplerPRF_init E chan sh col rw dir = Inl (Exn ''IndexError''))"
    if g: "glob E (prf_file_path dir mo ou) = p # ps" and f: "fits_open E p = Inr hdus"
      and l: "length hdus \<le> n_hdu" for p ps hdus
  proof -
    have "\<exists>i\<in>set [0..<n_hdu]. length hdus \<le> i + 1"
    proof (cases hdus)
      case Nil
      then have "0 \<in> set [0..<n_hdu] \<and> length hdus \<le> 0 + 1" by (simp add: n_hdu_def)
      then show ?thesis by blast
    next
      case (Cons h hs)
      then have "length hs \<in> set [0..<n_hdu] \<and> length hdus \<le> length hs + 1"
        using l by simp
      then show ?thesis by blast
    qed
    from read_images_short [OF f this] show ?thesis
      using prepare_prf_read_error [OF assms g] KeplerPRF_init_Inl by blast
  qed
  have key: "KeplerPRF_init E chan sh col rw dir = Inl (Exn ''KeyError'')"
    if g: "glob E (prf_file_path dir mo ou) = p # ps" and f: "fits_open E p = Inr hdus"
      and l: "n_hdu < length hdus"
      and c: "\<not> list_all complete_header (take n_hdu (tl hdus))" for p ps hdus
  proof -
    from c obtain i where i: "i < length (take n_hdu (tl hdus))"
        "\<not> complete_header (take n_hdu (tl hdus) ! i)"
      by (auto simp: list_all_length)
    then have il: "i < n_hdu" by simp
    have "take n_hdu (tl hdus) ! i = hdus ! (i + 1)"
      using il l by (cases hdus) auto
    with i il have ex: "\<exists>i\<in>set [0..<n_hdu]. \<not> complete_header (hdus ! (i + 1))" by auto
    have al: "\<forall>i\<in>set [0..<n_hdu]. i + 1 < length hdus" using l by auto
    from read_images_KeyError [OF f al ex] show ?thesis
      using prepare_prf_read_error [OF assms g] KeplerPRF_init_Inl by blast
  qed
  from none short key show ?thesis by blast
qed

theorem C4_construction_errors_witness:
  "channel_to_module_output example_env_no_file 42 = Inr (13, 2) \<and>
   glob example_env_no_file (prf_file_path ''/prf'' 13 2) = [] \<and>
   KeplerPRF_init example_env_no_file 42 (2, 3) 100 200 ''/prf'' = Inl (Exn ''IndexError'') \<and>
   length example_file_short = 4 \<and>
   KeplerPRF_init (example_env example_file_short) 42 (2, 3) 100 200 ''/prf'' =
     Inl (Exn ''IndexError'') \<and>
   length example_file_no_key = 6 \<and>
   KeplerPRF_init (example_env example_file_no_key) 42 (2, 3) 100 200 ''/prf'' =
     Inl (Exn ''KeyError'')"
proof -
  let ?p = "''/prf/kplr13.2_2011265_prf.fits''"
  have c0: "channel_to_module_output example_env_no_file 42 = Inr (13, 2)"
    by (simp add: example_env_no_file_def example_env_def)
  have g0: "glob example_env_no_file (prf_file_path ''/prf'' 13 2) = []"
    by (simp add: example_env_no_file_def)
  have c: "channel_to_module_output (example_env f) 42 = Inr (13, 2)" for f
    by (simp add: example_env_def)
  have g: "glob (example_env f) (prf_file_path ''/prf'' 13 2) = [?p]" for f
    by (simp add: example_path) (simp add: example_env_def)
  have o: "fits_open (example_env f) ?p = Inr f" for f
    by (simp add: example_env_def)
  have l1: "length example_file_short = 4"
    by (simp add: example_file_short_def example_file_def)
  have e: "complete_header (example_hdu a b)" for a b
    by (simp add: example_hdu_def complete_header_def required_keys_def)
       (rule exI [of _ "1 / 50"], simp)
  have h1: "list_all complete_header (tl example_file_short)"
    by (simp add: example_file_short_def example_file_def e)
  have l2: "length example_file_no_key = 6"
    by (simp add: example_file_no_key_def example_file_def)
  have h2: "\<not> list_all complete_header (take n_hdu (tl example_file_no_key))"
    by (simp add: example_file_no_key_def example_file_def example_hdu_def complete_header_def
        required_keys_def n_hdu_def)
  have r0: "KeplerPRF_init example_env_no_file 42 (2, 3) 100 200 ''/prf'' = Inl (Exn ''IndexError'')"
    using C4_construction_errors [OF c0, of "''/prf''" "(2, 3)" 100 200] g0 by blast
  have r1: "KeplerPRF_init (example_env example_file_short) 42 (2, 3) 100 200 ''/prf'' =
     Inl (Exn ''IndexError'')"
    using C4_construction_errors [OF c, of example_file_short "''/prf''" "(2, 3)" 100 200]
      g [of example_file_short] o [of example_file_short] l1 h1
    by (simp add: n_hdu_def)
  have r2: "KeplerPRF_init (example_env example_file_no_key) 42 (2, 3) 100 200 ''/prf'' =
     Inl (Exn ''KeyError'')"
    using C4_construction_errors [OF c, of example_file_no_key "''/prf''" "(2, 3)" 100 200]
      g [of example_file_no_key] o [of example_file_no_key] l2 h2
    by (simp add: n_hdu_def)
  from c0 g0 r0 l1 r1 l2 r2 show ?thesis by blast
qed

theorem C4_exception_names_counterexample:
  "channel_to_module_output example_env_no_file 42 = Inr (13, 2) \<and>
   glob example_env_no_file (prf_file_path ''/prf'' 13 2) = [] \<and>
   KeplerPRF_init example_env_no_file 42 (2, 3) 100 200 ''/prf'' = Inl (Exn ''IndexError'') \<and>
   KeplerPRF_init example_env_no_file 42 (2, 3) 100 200 ''/prf'' \<noteq> Inl (Exn ''CalibrationNotFound'') \<and>
   KeplerPRF_init (example_env example_file_no_key) 42 (2, 3) 100 200 ''/prf'' =
     Inl (Exn ''KeyError'') \<and>
   KeplerPRF_init (example_env example_file_no_key) 42 (2, 3) 100 200 ''/prf'' \<noteq>
     Inl (Exn ''CalibrationFormatError'')"
proof -
  have c0: "channel_to_module_output example_env_no_file 42 = Inr (13, 2)"
    by (simp add: example_env_no_file_def example_env_def)
  have g0: "glob example_env_no_file (prf_file_path ''/prf'' 13 2) = []"
    by (simp add: example_env_no_file_def)
  have r0: "KeplerPRF_init example_env_no_file 42 (2, 3) 100 200 ''/prf'' = Inl (Exn ''IndexError'')"
    using c0 g0 by (simp add: KeplerPRF_init_def prepare_prf_def)
  let ?E = "example_env example_file_no_key"
  have c: "channel_to_module_output ?E 42 = Inr (13, 2)"
    by (simp add: example_env_def)
  have g: "glob ?E (prf_file_path ''/prf'' 13 2) = [''/prf/kplr13.2_2011265_prf.fits'']"
    by (simp add: example_path) (simp add: example_env_def)
  have r: "read_prf_images ?E ''/prf/kplr13.2_2011265_prf.fits'' [0..<n_hdu] = Inl (Exn ''KeyError'')"
    by (simp add: range_n_hdu read_prf_calibration_file_def example_env_def
        example_file_no_key_def example_file_def header_get_def example_hdu_def)
  have r2: "KeplerPRF_init ?E 42 (2, 3) 100 200 ''/prf'' = Inl (Exn ''KeyError'')"
    using prepare_prf_read_error [OF c g r] by (simp add: KeplerPRF_init_Inl)
  show ?thesis
    using c0 g0 r0 r2 by simp
qed

section \<open>The interpolant and the shape of the calibration images\<close>

lemma prepare_prf_after_read:
  assumes "channel_to_module_output E chan = Inr (mo, ou)"
    and "glob E (prf_file_path dir mo ou) = p # ps"
    and "read_prf_images E p [0..<n_hdu] = Inr (s0 # ss)"
  shows "prepare_prf E dir chan sh col rw =
     (if \<not> list_all (\<lambda>s. np_shape (prfn s) = np_shape (prfn s0)) (s0 # ss)
      then Inl (Exn ''ValueError'')
      else (case RectBivariateSpline E (PRFaxis (snd (np_shape (prfn s0))) (cdelt1p s0))
                   (PRFaxis (fst (np_shape (prfn s0))) (cdelt2p s0))
                   (fused_grid sh col rw s0 (s0 # ss)) of
              Inl e \<Rightarrow> Inl e
            | Inr f \<Rightarrow> Inr (footprint_axis col (snd sh),
                            footprint_axis rw (fst sh), f)))"
  using assms by (simp add: prepare_prf_def Let_def)

lemma example_read_wide:
  "read_prf_images (example_env example_file_wide) ''/prf/kplr13.2_2011265_prf.fits'' [0..<n_hdu]
   = Inr (map (\<lambda>s. s\<lparr>prfn := [[Fin 1, Fin 2]]\<rparr>) example_samples)"
  by (simp add: range_n_hdu example_samples_def read_prf_calibration_file_def example_env_def
      example_file_wide_def example_file_def header_get_def example_hdu_def)

text \<open>
  C10. \<open>PRFcol\<close> has as many elements as the first calibration image has columns and
  \<open>PRFrow\<close> as many as it has rows, and the fused image has the shape of that image, rows
  first. With a spline constructor that rejects a first axis whose length is not the
  number of rows of the image, or a second axis whose length is not its number of
  columns (as \<open>RectBivariateSpline\<close> does), the constructor of the model fails when the
  image is not square. When it returns a model, the image is square, the interpolant is
  the spline over \<open>(PRFcol, PRFrow, prf)\<close>, whose first axis is the one scaled by
  \<open>cdelt1p[0]\<close>, and \<open>prf_to_detector\<close> calls it with the row offsets first.
\<close>

theorem C10_square_grid:
  assumes "\<forall>x y z. length x \<noteq> fst (np_shape z) \<or> length y \<noteq> snd (np_shape z)
             \<longrightarrow> (\<exists>e. RectBivariateSpline E x y z = Inl e)"
    and "channel_to_module_output E chan = Inr (mo, ou)"
    and "glob E (prf_file_path dir mo ou) = p # ps"
    and "read_prf_images E p [0..<n_hdu] = Inr (s0 # ss)"
    and "np_shape (prfn s0) = (nr, nc)"
  shows "length (PRFaxis nc (cdelt1p s0)) = nc \<and> length (PRFaxis nr (cdelt2p s0)) = nr \<and>
         (nr \<noteq> nc \<longrightarrow> (\<exists>e. KeplerPRF_init E chan sh col rw dir = Inl e)) \<and>
         (\<forall>m. KeplerPRF_init E chan sh col rw dir = Inr m \<longrightarrow>
            nr = nc \<and>
            np_shape (fused_grid sh col rw s0 (s0 # ss)) = (nr, nc) \<and>
            RectBivariateSpline E (PRFaxis nc (cdelt1p s0)) (PRFaxis nr (cdelt2p s0))
              (fused_grid sh col rw s0 (s0 # ss)) = Inr (interpolate m) \<and>
            (\<forall>fl cc cr sc sr rot. row_coord m \<noteq> [] \<and> col_coord m \<noteq> [] \<longrightarrow>
               fst (prf_to_detector m fl cc cr sc sr (Fin rot)) =
                 map_sum id (grid_scale (Fin fl))
                   (interpolate m (map (\<lambda>d. d * sr) (map (\<lambda>r. r - cr) (row_coord m)))
                                  (map (\<lambda>d. d * sc) (map (\<lambda>c. c - cc) (col_coord m))))))"
proof -
  let ?x = "PRFaxis nc (cdelt1p s0)"
  let ?y = "PRFaxis nr (cdelt2p s0)"
  let ?z = "fused_grid sh col rw s0 (s0 # ss)"
  let ?same = "list_all (\<lambda>s. np_shape (prfn s) = np_shape (prfn s0)) (s0 # ss)"
  have pp: "prepare_prf E dir chan sh col rw =
     (if \<not> ?same then Inl (Exn ''ValueError'')
      else (case RectBivariateSpline E ?x ?y ?z of
              Inl e \<Rightarrow> Inl e
            | Inr f \<Rightarrow> Inr (footprint_axis col (snd sh),
                            footprint_axis rw (fst sh), f)))"
    using prepare_prf_after_read [OF assms(2,3,4), of sh col rw] by (simp add: assms(5))
  have zs: "np_shape ?z = (nr, nc)" if ?same
    using np_shape_fused_grid [OF that, of sh col rw] by (simp add: assms(5))
  have rej: "\<exists>e. RectBivariateSpline E ?x ?y ?z = Inl e" if "?same" "nr \<noteq> nc"
  proof -
    have "length ?x \<noteq> fst (np_shape ?z)"
      using that by (simp add: zs length_PRFaxis)
    with assms(1) show ?thesis by blast
  qed
  have fail: "\<exists>e. KeplerPRF_init E chan sh col rw dir = Inl e" if "nr \<noteq> nc"
  proof (cases ?same)
    case True
    from rej [OF True that] obtain e where "RectBivariateSpline E ?x ?y ?z = Inl e" by blast
    with True pp have "prepare_prf E dir chan sh col rw = Inl e" by simp
    then show ?thesis by (simp add: KeplerPRF_init_def)
  next
    case False
    with pp have "prepare_prf E dir chan sh col rw = Inl (Exn ''ValueError'')" by simp
    then show ?thesis by (simp add: KeplerPRF_init_def)
  qed
  have ok: "nr = nc \<and> np_shape ?z = (nr, nc) \<and>
            RectBivariateSpline E ?x ?y ?z = Inr (interpolate m)"
    if m: "KeplerPRF_init E chan sh col rw dir = Inr m" for m
  proof -
    from fail m have sq: "nr = nc" by auto
    from m pp have same: ?same
      by (auto simp: KeplerPRF_init_def split: if_splits)
    from m pp same have "RectBivariateSpline E ?x ?y ?z = Inr (interpolate m)"
      by (auto simp: KeplerPRF_init_def split: sum.splits)
    with sq zs [OF same] show ?thesis by simp
  qed
  have call: "fst (prf_to_detector m fl cc cr sc sr (Fin rot)) =
                 map_sum id (grid_scale (Fin fl))
                   (interpolate m (map (\<lambda>d. d * sr) (map (\<lambda>r. r - cr) (row_coord m)))
                                  (map (\<lambda>d. d * sc) (map (\<lambda>c. c - cc) (col_coord m))))"
    if "row_coord m \<noteq> []" "col_coord m \<noteq> []" for m fl cc cr sc sr rot
    by (simp add: prf_to_detector_nonempty [OF that] split: sum.splits)
  have l1: "length ?x = nc" and l2: "length ?y = nr"
    by (simp_all add: length_PRFaxis)
  have A: "nr \<noteq> nc \<longrightarrow> (\<exists>e. KeplerPRF_init E chan sh col rw dir = Inl e)"
    using fail by blast
  have B: "\<forall>m. KeplerPRF_init E chan sh col rw dir = Inr m \<longrightarrow>
            nr = nc \<and>
            np_shape ?z = (nr, nc) \<and>
            RectBivariateSpline E ?x ?y ?z = Inr (interpolate m) \<and>
            (\<forall>fl cc cr sc sr rot. row_coord m \<noteq> [] \<and> col_coord m \<noteq> [] \<longrightarrow>
               fst (prf_to_detector m fl cc cr sc sr (Fin rot)) =
                 map_sum id (grid_scale (Fin fl))
                   (interpolate m (map (\<lambda>d. d * sr) (map (\<lambda>r. r - cr) (row_coord m)))
                                  (map (\<lambda>d. d * sc) (map (\<lambda>c. c - cc) (col_coord m)))))"
    using ok call by blast
  from l1 l2 A B show ?thesis by blast
qed

theorem C10_square_grid_witness:
  "read_prf_images (example_env example_file) ''/prf/kplr13.2_2011265_prf.fits'' [0..<n_hdu] =
     Inr (hd example_samples # tl example_samples) \<and>
   np_shape (prfn (hd example_samples)) = (2, 2) \<and>
   KeplerPRF_init (example_env example_file) 42 (2, 3) 100 200 ''/prf'' =
     Inr (example_model (2, 3) 100 200) \<and>
   RectBivariateSpline (example_env example_file)
     (PRFaxis 2 (cdelt1p (hd example_samples))) (PRFaxis 2 (cdelt2p (hd example_samples)))
     (fused_grid (2, 3) 100 200 (hd example_samples) (hd example_samples # tl example_samples)) =
     Inr (interpolate (example_model (2, 3) 100 200)) \<and>
   np_shape (prfn ((hd example_samples)\<lparr>prfn := [[Fin 1, Fin 2]]\<rparr>)) = (1, 2) \<and>
   (\<exists>e. KeplerPRF_init (example_env example_file_wide) 42 (2, 3) 100 200 ''/prf'' = Inl e)"
proof -
  let ?p = "''/prf/kplr13.2_2011265_prf.fits''"
  let ?s0 = "hd example_samples"
  let ?ss = "tl example_samples"
  let ?w = "\<lambda>s. s\<lparr>prfn := [[Fin 1, Fin 2]]\<rparr>"
  have con: "\<forall>x y z. length x \<noteq> fst (np_shape z) \<or> length y \<noteq> snd (np_shape z)
             \<longrightarrow> (\<exists>e. RectBivariateSpline (example_env f) x y z = Inl e)" for f
    by (simp add: example_env_def example_spline_def)
  have c: "channel_to_module_output (example_env f) 42 = Inr (13, 2)" for f
    by (simp add: example_env_def)
  have g: "glob (example_env f) (prf_file_path ''/prf'' 13 2) = [?p]" for f
    by (simp add: example_path) (simp add: example_env_def)
  have es: "example_samples = ?s0 # ?ss"
    by (simp add: example_samples_def)
  have r: "read_prf_images (example_env example_file) ?p [0..<n_hdu] = Inr (?s0 # ?ss)"
    by (subst es [symmetric]) (rule example_read)
  have sh: "np_shape (prfn ?s0) = (2, 2)"
    by (simp add: example_samples_def np_shape_def)
  have i: "KeplerPRF_init (example_env example_file) 42 (2, 3) 100 200 ''/prf'' =
     Inr (example_model (2, 3) 100 200)"
    by (rule example_init)
  from C10_square_grid [OF con c g r sh, of "(2, 3)" 100 200] i
  have sq: "RectBivariateSpline (example_env example_file)
     (PRFaxis 2 (cdelt1p ?s0)) (PRFaxis 2 (cdelt2p ?s0)) (fused_grid (2, 3) 100 200 ?s0 (?s0 # ?ss)) =
     Inr (interpolate (example_model (2, 3) 100 200))"
    by blast
  have "map ?w example_samples = map ?w (?s0 # ?ss)"
    by (rule arg_cong [OF es])
  then have ws: "map ?w example_samples = ?w ?s0 # map ?w ?ss"
    by (simp only: list.map)
  have rw: "read_prf_images (example_env example_file_wide) ?p [0..<n_hdu] =
     Inr (?w ?s0 # map ?w ?ss)"
    by (subst ws [symmetric]) (rule example_read_wide)
  have shw: "np_shape (prfn (?w ?s0)) = (1, 2)"
    by (simp add: np_shape_def)
  have ne: "(1::nat) \<noteq> 2" by simp
  from C10_square_grid [OF con c g rw shw, of "(2, 3)" 100 200] ne
  have w: "\<exists>e. KeplerPRF_init (example_env example_file_wide) 42 (2, 3) 100 200 ''/prf'' = Inl e"
    by blast
  from r sh i sq shw w show ?thesis by blast
qed

section \<open>Lemmas on the sums\<close>

lemma fadd_NaN_left: "fadd NaN v = NaN"
  by (cases v) simp_all

lemma fadd_NaN_right: "fadd v NaN = NaN"
  by (cases v) simp_all

lemma fdiv_NaN_left: "fdiv NaN d = NaN"
  by (cases d) simp_all

lemma fsum_NaN: "NaN \<in> set vs \<Longrightarrow> fsum vs = NaN"
proof (induction vs)
  case Nil
  then show ?case by simp
next
  case (Cons v vs)
  show ?case
  proof (cases "v = NaN")
    case True
    then show ?thesis by (simp add: fadd_NaN_left)
  next
    case False
    with Cons have "fsum vs = NaN" by simp
    then show ?thesis by (simp add: fadd_NaN_right)
  qed
qed

lemma finite_or_nan_cases: "finite_or_nan v \<Longrightarrow> (\<exists>a. v = Fin a) \<or> v = NaN"
  by (cases v) (simp_all add: finite_or_nan_def)

lemma nansum_list:
  "list_all finite_or_nan vs \<Longrightarrow>
   fsum (map (\<lambda>v. if v = NaN then Fin 0 else v) vs) = Fin (rsum vs)"
proof (induction vs)
  case Nil
  then show ?case by (simp add: rsum_def)
next
  case (Cons v vs)
  then have IH: "fsum (map (\<lambda>v. if v = NaN then Fin 0 else v) vs) = Fin (rsum vs)" by simp
  from Cons.prems have "finite_or_nan v" by simp
  then show ?case
    using IH by (cases v) (simp_all add: rsum_def fin_part_def finite_or_nan_def)
qed

lemma sum_list_finite:
  "list_all is_finite vs \<Longrightarrow> fsum vs = Fin (rsum vs)"
proof (induction vs)
  case Nil
  then show ?case by (simp add: rsum_def)
next
  case (Cons v vs)
  then have IH: "fsum vs = Fin (rsum vs)" by simp
  from Cons.prems have "is_finite v" by simp
  then show ?case
    using IH by (cases v) (simp_all add: rsum_def fin_part_def is_finite_def)
qed

lemma rsum_div:
  "d \<noteq> 0 \<Longrightarrow> list_all finite_or_nan vs \<Longrightarrow>
   rsum (map (\<lambda>v. fdiv v (Fin d)) vs) = rsum vs / d"
proof (induction vs)
  case Nil
  then show ?case by (simp add: rsum_def)
next
  case (Cons v vs)
  then have IH: "rsum (map (\<lambda>v. fdiv v (Fin d)) vs) = rsum vs / d" by simp
  from Cons.prems have "finite_or_nan v" by simp
  then show ?case
    using IH Cons.prems(1)
    by (cases v) (simp_all add: rsum_def fin_part_def finite_or_nan_def add_divide_distrib)
qed

lemma finite_or_nan_div:
  "d \<noteq> 0 \<Longrightarrow> finite_or_nan v \<Longrightarrow> finite_or_nan (fdiv v (Fin d))"
  by (cases v) (simp_all add: finite_or_nan_def)

lemma is_finite_div:
  "d \<noteq> 0 \<Longrightarrow> is_finite v \<Longrightarrow> is_finite (fdiv v (Fin d))"
  by (cases v) (simp_all add: is_finite_def)

lemma finite_or_nan_add:
  "finite_or_nan a \<Longrightarrow> finite_or_nan b \<Longrightarrow> finite_or_nan (fadd a b)"
  by (cases a; cases b) (simp_all add: finite_or_nan_def)

lemma is_finite_add:
  "is_finite a \<Longrightarrow> is_finite b \<Longrightarrow> is_finite (fadd a b)"
  by (cases a; cases b) (simp_all add: is_finite_def)

lemma is_finite_finite_or_nan: "is_finite v \<Longrightarrow> finite_or_nan v"
  by (cases v) (simp_all add: is_finite_def finite_or_nan_def)

lemma all_cells_concat: "all_cells P g = list_all P (concat g)"
  by (induction g) (simp_all add: all_cells_def)

lemma all_cells_zeros: "P (Fin 0) \<Longrightarrow> all_cells P (zeros sh)"
  by (simp add: all_cells_def zeros_def list_all_iff)

lemma all_cells_grid_div:
  "(\<And>v. P v \<Longrightarrow> P (fdiv v d)) \<Longrightarrow> all_cells P g \<Longrightarrow> all_cells P (grid_div g d)"
  by (simp add: all_cells_def grid_div_def list_all_iff)

lemma list_all_map2:
  assumes "\<And>a b. P a \<Longrightarrow> Q b \<Longrightarrow> R (f a b)"
    and "list_all P xs" and "list_all Q ys"
  shows "list_all R (map2 f xs ys)"
  unfolding list_all_iff
proof
  fix x
  assume "x \<in> set (map2 f xs ys)"
  then obtain a b where ab: "(a, b) \<in> set (zip xs ys)" "x = f a b" by auto
  then have "a \<in> set xs" "b \<in> set ys"
    by (auto dest: set_zip_leftD set_zip_rightD)
  with assms(2,3) have "P a" "Q b" by (simp_all add: list_all_iff)
  with ab assms(1) show "R x" by simp
qed

lemma all_cells_grid_add:
  assumes "\<And>a b. P a \<Longrightarrow> P b \<Longrightarrow> P (fadd a b)"
    and "all_cells P g" and "all_cells P h"
  shows "all_cells P (grid_add g h)"
proof -
  have row: "list_all P (map2 fadd r q)" if "list_all P r" "list_all P q" for r q
    using assms(1) that by (rule list_all_map2)
  show ?thesis
    unfolding all_cells_def grid_add_def
    using row assms(2,3) [unfolded all_cells_def] by (rule list_all_map2)
qed

lemma all_cells_fuse:
  assumes "\<And>a b. P a \<Longrightarrow> P b \<Longrightarrow> P (fadd a b)"
    and "\<And>v d. d \<noteq> 0 \<Longrightarrow> P v \<Longrightarrow> P (fdiv v (Fin d))"
  shows "all_cells P g \<Longrightarrow> \<forall>s\<in>set ss. all_cells P (prfn s) \<Longrightarrow> all_cells P (fuse rc rr ss g)"
proof (induction ss arbitrary: g)
  case Nil
  then show ?case by simp
next
  case (Cons s ss)
  have w: "prfWeight rc rr s \<noteq> 0"
    using prfWeight_pos [of rc rr s] by simp
  have "all_cells P (grid_div (prfn s) (Fin (prfWeight rc rr s)))"
    using Cons.prems(2) assms(2) [OF w] by (intro all_cells_grid_div) simp_all
  with Cons.prems(1) have "all_cells P (grid_add g (grid_div (prfn s) (Fin (prfWeight rc rr s))))"
    using assms(1) by (intro all_cells_grid_add) simp_all
  with Cons show ?case by simp
qed

lemma all_cells_accumulated:
  assumes "\<And>a b. P a \<Longrightarrow> P b \<Longrightarrow> P (fadd a b)"
    and "\<And>v d. d \<noteq> 0 \<Longrightarrow> P v \<Longrightarrow> P (fdiv v (Fin d))"
    and "P (Fin 0)"
    and "\<forall>s\<in>set ss. all_cells P (prfn s)"
  shows "all_cells P (accumulated_grid sh col rw s0 ss)"
  unfolding accumulated_grid_def
  using assms by (intro all_cells_fuse all_cells_zeros) simp_all

lemma concat_grid_div: "concat (grid_div g d) = map (\<lambda>v. fdiv v d) (concat g)"
  by (simp add: grid_div_def map_concat)

lemma example_accumulated_positive:
  assumes "np_shape (prfn s0) = (2, 2)"
  shows "\<exists>S. 0 < S \<and> nansum (accumulated_grid sh col rw s0 example_samples) = Fin S"
proof -
  let ?rc = "ref_column sh col"
  let ?rr = "ref_row sh rw"
  define u where "u = (\<lambda>i. inverse (prfWeight ?rc ?rr (example_samples ! i)))"
  have pos: "0 < u i" for i
    by (simp add: u_def prfWeight_pos)
  have d: "fdiv (Fin a) (Fin (prfWeight ?rc ?rr (example_samples ! i))) = Fin (a * u i)" for a i
    using prfWeight_pos [of ?rc ?rr "example_samples ! i"]
    by (simp add: u_def divide_inverse)
  have s: "example_samples = [example_samples ! 0, example_samples ! 1, example_samples ! 2,
      example_samples ! 3, example_samples ! 4]"
    by (simp add: example_samples_def)
  have p: "prfn (example_samples ! i) = [[Fin 1, Fin 2], [Fin 3, Fin 4]]" if "i < 5" for i
  proof -
    from that have "i = 0 \<or> i = 1 \<or> i = 2 \<or> i = 3 \<or> i = 4" by arith
    then show ?thesis by (auto simp: example_samples_def)
  qed
  have z: "zeros (np_shape (prfn s0)) = [[Fin 0, Fin 0], [Fin 0, Fin 0]]"
    by (simp add: assms zeros_def numeral_2_eq_2)
  have "accumulated_grid sh col rw s0 example_samples =
      [[Fin (u 0 + u 1 + u 2 + u 3 + u 4), Fin (2 * u 0 + 2 * u 1 + 2 * u 2 + 2 * u 3 + 2 * u 4)],
       [Fin (3 * u 0 + 3 * u 1 + 3 * u 2 + 3 * u 3 + 3 * u 4),
        Fin (4 * u 0 + 4 * u 1 + 4 * u 2 + 4 * u 3 + 4 * u 4)]]"
    unfolding accumulated_grid_def z
    by (subst s) (simp add: grid_add_def grid_div_def p d del: fdiv.simps)
  then have "nansum (accumulated_grid sh col rw s0 example_samples) =
      Fin (10 * u 0 + 10 * u 1 + 10 * u 2 + 10 * u 3 + 10 * u 4)"
    by (simp add: nansum_def)
  moreover have "0 < 10 * u 0 + 10 * u 1 + 10 * u 2 + 10 * u 3 + 10 * u 4"
    using pos [of 0] pos [of 1] pos [of 2] pos [of 3] pos [of 4] by linarith
  ultimately show ?thesis by blast
qed

lemma example_env_init:
  assumes "read_prf_images (example_env f) ''/prf/kplr13.2_2011265_prf.fits'' [0..<n_hdu] =
             Inr (s0 # ss)"
    and "list_all (\<lambda>s. np_shape (prfn s) = np_shape (prfn s0)) (s0 # ss)"
    and "np_shape (prfn s0) = (n, n)"
  shows "KeplerPRF_init (example_env f) 42 sh col rw ''/prf'' = Inr (example_model sh col rw)"
proof -
  let ?E = "example_env f"
  have c: "channel_to_module_output ?E 42 = Inr (13, 2)"
    by (simp add: example_env_def)
  have g: "glob ?E (prf_file_path ''/prf'' 13 2) = [''/prf/kplr13.2_2011265_prf.fits'']"
    by (simp add: example_path) (simp add: example_env_def)
  have z: "np_shape (fused_grid sh col rw s0 (s0 # ss)) = (n, n)"
    using np_shape_fused_grid [OF assms(2), of sh col rw] by (simp add: assms(3))
  have r: "RectBivariateSpline ?E (PRFaxis n c1) (PRFaxis n c2) (fused_grid sh col rw s0 (s0 # ss)) =
             Inr example_interpolant" for c1 c2
    by (simp add: example_env_def example_spline_def z length_PRFaxis)
  have "prepare_prf ?E ''/prf'' 42 sh col rw =
     Inr (footprint_axis col (snd sh),
          footprint_axis rw (fst sh), example_interpolant)"
    using prepare_prf_after_read [OF c g assms(1), of sh col rw] assms(2)
    by (simp add: assms(3) r)
  then show ?thesis
    by (simp add: KeplerPRF_init_def example_model_def)
qed

lemma example_read_nan:
  "read_prf_images (example_env example_file_nan) ''/prf/kplr13.2_2011265_prf.fits'' [0..<n_hdu]
   = Inr example_samples_nan"
  by (simp add: range_n_hdu example_samples_nan_def example_samples_def
      read_prf_calibration_file_def example_env_def example_file_nan_def example_file_def
      header_get_def example_hdu_def)

lemma example_nan_accumulated:
  assumes "np_shape (prfn s0) = (2, 2)"
  shows "NaN \<in> set (concat (accumulated_grid sh col rw s0 example_samples_nan))"
proof -
  have z: "zeros (np_shape (prfn s0)) = [[Fin 0, Fin 0], [Fin 0, Fin 0]]"
    by (simp add: assms zeros_def numeral_2_eq_2)
  have s: "example_samples_nan = [example_samples_nan ! 0, example_samples_nan ! 1,
      example_samples_nan ! 2, example_samples_nan ! 3, example_samples_nan ! 4]"
    by (simp add: example_samples_nan_def example_samples_def)
  have p0: "prfn (example_samples_nan ! 0) = [[Fin 1, NaN], [Fin 3, Fin 4]]"
    by (simp add: example_samples_nan_def example_samples_def)
  have p: "prfn (example_samples_nan ! i) = [[Fin 1, Fin 2], [Fin 3, Fin 4]]"
    if "i = 1 \<or> i = 2 \<or> i = 3 \<or> i = 4" for i
    using that by (auto simp: example_samples_nan_def example_samples_def)
  show ?thesis
    unfolding accumulated_grid_def z
    by (subst s) (simp add: grid_add_def grid_div_def p0 p fdiv_NaN_left fadd_NaN_left
        del: fdiv.simps)
qed

text \<open>
  C1. In exact arithmetic, when every element of the calibration images is finite or
  NaN and \<open>nansum(prf) * cdelt1p[0] * cdelt2p[0]\<close> is not zero before the division, the
  fused image satisfies \<open>nansum(prf) * cdelt1p[0] * cdelt2p[0] = 1\<close> after it: the sum
  that leaves the NaN elements out. The plain sum over all elements gives 1 as well when
  every element of the calibration images is finite, and is NaN as soon as the fused
  image holds a NaN.
\<close>

theorem C1_fused_grid_integral:
  assumes "\<forall>s\<in>set ss. all_cells finite_or_nan (prfn s)"
    and "integral (nansum (accumulated_grid sh col rw s0 ss)) s0 \<noteq> Fin 0"
  shows "integral (nansum (fused_grid sh col rw s0 ss)) s0 = Fin 1 \<and>
         ((\<forall>s\<in>set ss. all_cells is_finite (prfn s)) \<longrightarrow>
            integral (np_sum (fused_grid sh col rw s0 ss)) s0 = Fin 1) \<and>
         (NaN \<in> set (concat (fused_grid sh col rw s0 ss)) \<longrightarrow>
            integral (np_sum (fused_grid sh col rw s0 ss)) s0 = NaN)"
proof -
  let ?acc = "accumulated_grid sh col rw s0 ss"
  let ?vs = "concat ?acc"
  let ?c1 = "cdelt1p s0"
  let ?c2 = "cdelt2p s0"
  let ?D = "rsum ?vs * ?c1 * ?c2"
  let ?fused = "fused_grid sh col rw s0 ss"
  have "all_cells finite_or_nan ?acc"
    using assms(1)
    by (intro all_cells_accumulated finite_or_nan_add finite_or_nan_div)
       (simp_all add: finite_or_nan_def)
  then have fn: "list_all finite_or_nan ?vs"
    by (simp add: all_cells_concat)
  have ns: "nansum ?acc = Fin (rsum ?vs)"
    unfolding nansum_def using fn by (rule nansum_list)
  have den: "integral (nansum ?acc) s0 = Fin ?D"
    by (simp add: integral_def ns)
  with assms(2) have D: "?D \<noteq> 0" by simp
  have fused: "?fused = grid_div ?acc (Fin ?D)"
    using den by (simp add: fused_grid_def normalise_def integral_def)
  have cf: "concat ?fused = map (\<lambda>v. fdiv v (Fin ?D)) ?vs"
    by (simp add: fused concat_grid_div)
  have fn': "list_all finite_or_nan (concat ?fused)"
    unfolding cf using fn D by (simp add: list_all_iff finite_or_nan_div)
  have rs: "rsum (concat ?fused) = rsum ?vs / ?D"
    unfolding cf using D fn by (rule rsum_div)
  have one: "rsum ?vs / ?D * ?c1 * ?c2 = 1"
    using D by simp
  have "nansum ?fused = Fin (rsum (concat ?fused))"
    unfolding nansum_def using fn' by (rule nansum_list)
  then have a: "integral (nansum ?fused) s0 = Fin 1"
    using one by (simp add: integral_def rs)
  have b: "integral (np_sum ?fused) s0 = Fin 1" if fin: "\<forall>s\<in>set ss. all_cells is_finite (prfn s)"
  proof -
    have "all_cells is_finite ?acc"
      using fin
      by (intro all_cells_accumulated is_finite_add is_finite_div)
         (simp_all add: is_finite_def)
    then have "list_all is_finite ?vs"
      by (simp add: all_cells_concat)
    then have "list_all is_finite (concat ?fused)"
      unfolding cf using D by (simp add: list_all_iff is_finite_div)
    then have "np_sum ?fused = Fin (rsum (concat ?fused))"
      unfolding np_sum_def by (rule sum_list_finite)
    then show ?thesis
      using one by (simp add: integral_def rs)
  qed
  have c: "integral (np_sum ?fused) s0 = NaN" if "NaN \<in> set (concat ?fused)"
    using fsum_NaN [OF that] by (simp add: integral_def np_sum_def)
  from a b c show ?thesis by blast
qed

theorem C1_fused_grid_integral_witness:
  "list_all (\<lambda>s. all_cells is_finite (prfn s)) example_samples \<and>
   integral (nansum (fused_grid (2, 3) 100 200 (hd example_samples) example_samples))
     (hd example_samples) = Fin 1 \<and>
   integral (np_sum (fused_grid (2, 3) 100 200 (hd example_samples) example_samples))
     (hd example_samples) = Fin 1"
proof -
  let ?s0 = "hd example_samples"
  have fin: "list_all (\<lambda>s. all_cells is_finite (prfn s)) example_samples"
    by (simp add: example_samples_def all_cells_def is_finite_def)
  then have h1': "\<forall>s\<in>set example_samples. all_cells is_finite (prfn s)"
    by (simp add: list_all_iff)
  then have h1: "\<forall>s\<in>set example_samples. all_cells finite_or_nan (prfn s)"
    by (auto simp: all_cells_def list_all_iff intro: is_finite_finite_or_nan)
  have sh: "np_shape (prfn ?s0) = (2, 2)"
    by (simp add: example_samples_def np_shape_def)
  from example_accumulated_positive [OF sh, of "(2, 3)" 100 200]
  obtain S where S: "0 < S" "nansum (accumulated_grid (2, 3) 100 200 ?s0 example_samples) = Fin S"
    by blast
  have c: "cdelt1p ?s0 = 1 / 50" "cdelt2p ?s0 = 1 / 50"
    by (simp_all add: example_samples_def)
  have h2: "integral (nansum (accumulated_grid (2, 3) 100 200 ?s0 example_samples)) ?s0 \<noteq> Fin 0"
    using S by (simp add: integral_def c)
  from C1_fused_grid_integral [OF h1 h2] h1' fin show ?thesis by blast
qed

text \<open>
  On a calibration file with a NaN the model is constructed, and the plain sum of the
  fused image times the two pixel scales is NaN, not 1.
\<close>

theorem C1_plain_sum_counterexample:
  "read_prf_images (example_env example_file_nan) ''/prf/kplr13.2_2011265_prf.fits'' [0..<n_hdu] =
     Inr example_samples_nan \<and>
   KeplerPRF_init (example_env example_file_nan) 42 (2, 3) 100 200 ''/prf'' =
     Inr (example_model (2, 3) 100 200) \<and>
   integral (np_sum (fused_grid (2, 3) 100 200 (hd example_samples_nan) example_samples_nan))
     (hd example_samples_nan) = NaN \<and>
   integral (np_sum (fused_grid (2, 3) 100 200 (hd example_samples_nan) example_samples_nan))
     (hd example_samples_nan) \<noteq> Fin 1"
proof -
  let ?s0 = "hd example_samples_nan"
  let ?ss = "tl example_samples_nan"
  let ?fused = "fused_grid (2, 3) 100 200 ?s0 example_samples_nan"
  have es: "example_samples_nan = ?s0 # ?ss"
    by (simp add: example_samples_nan_def example_samples_def)
  have sh: "np_shape (prfn ?s0) = (2, 2)"
    by (simp add: example_samples_nan_def example_samples_def np_shape_def)
  have al: "list_all (\<lambda>s. np_shape (prfn s) = np_shape (prfn ?s0)) example_samples_nan"
    by (simp add: example_samples_nan_def example_samples_def np_shape_def)
  have r: "read_prf_images (example_env example_file_nan) ''/prf/kplr13.2_2011265_prf.fits''
             [0..<n_hdu] = Inr (?s0 # ?ss)"
    by (subst es [symmetric]) (rule example_read_nan)
  have al': "list_all (\<lambda>s. np_shape (prfn s) = np_shape (prfn ?s0)) (?s0 # ?ss)"
    by (subst es [symmetric]) (rule al)
  have i: "KeplerPRF_init (example_env example_file_nan) 42 (2, 3) 100 200 ''/prf'' =
     Inr (example_model (2, 3) 100 200)"
    using r al' sh by (rule example_env_init)
  have "NaN \<in> set (concat (accumulated_grid (2, 3) 100 200 ?s0 example_samples_nan))"
    using sh by (rule example_nan_accumulated)
  then have "NaN \<in> set (concat ?fused)"
    by (simp add: fused_grid_def normalise_def concat_grid_div image_iff)
       (metis fdiv_NaN_left)
  then have "np_sum ?fused = NaN"
    unfolding np_sum_def by (rule fsum_NaN)
  then have n: "integral (np_sum ?fused) ?s0 = NaN"
    by (simp add: integral_def)
  from example_read_nan i n show ?thesis by simp
qed

end
